theory Spec2Isabelle
  imports Main "HOL-Library.Word"
begin

section \<open>Strings and numbers of the host language\<close>

text \<open>
  A string of the worker is a sequence of 16-bit code units, and \<open>.length\<close> counts code
  units. \<open>lit\<close> embeds an ASCII literal of the source; the non-ASCII code units that the
  source file holds in front of its messages are written out as numerals.
\<close>

type_synonym jschar = "16 word"
type_synonym jsstring = "jschar list"

definition lit :: "string \<Rightarrow> jsstring" where
  "lit s = map (\<lambda>c. of_nat (of_char c)) s"

text \<open>\<open>!s\<close> on a string: only the empty string is falsy.\<close>

definition falsy :: "jsstring \<Rightarrow> bool" where
  "falsy s = (s = [])"

text \<open>
  A template literal \<open>${n}\<close> with \<open>n\<close> a length prints the decimal digits of \<open>n\<close>.
\<close>

definition digit :: "nat \<Rightarrow> jschar" where
  "digit d = of_nat (48 + d)"

function number_toString :: "nat \<Rightarrow> jsstring" where
  "number_toString n =
     (if n < 10 then [digit n] else number_toString (n div 10) @ [digit (n mod 10)])"
  by pat_completeness auto
termination
  by (relation "measure id") auto

declare number_toString.simps [simp del]

section \<open>Data model\<close>

text \<open>\<open>pageData\<close> as \<open>analyzeSeoMultiStep\<close> builds it.\<close>

record pageData =
  html :: jsstring
  title :: jsstring
  metaDescription :: jsstring
  headings :: "jsstring list"
  images :: "jsstring list"
  links :: "jsstring list"

text \<open>An entry of the recommendations array: \<open>{ text, priority }\<close>.\<close>

record recommendation =
  rtext :: jsstring
  priority :: jsstring

definition NO_TITLE :: jsstring where
  "NO_TITLE = lit ''No title found''"

definition NO_META :: jsstring where
  "NO_META = lit ''No meta description''"

section \<open>Scoring engine\<close>

subsection \<open>calculateSeoScore\<close>

text \<open>
  The function threads \<open>score\<close> through five blocks, which the source labels
  "Title evaluation", "Meta description evaluation", "Headings evaluation",
  "Images evaluation" and "Links evaluation". Each block is a function of the features and
  the score so far.
\<close>

definition title_evaluation :: "pageData \<Rightarrow> int \<Rightarrow> int" where
  "title_evaluation pd score =
     (if falsy (title pd) \<or> title pd = NO_TITLE then score - 20
      else if length (title pd) < 30 then score - 10
      else if length (title pd) > 60 then score - 10
      else score)"

definition meta_description_evaluation :: "pageData \<Rightarrow> int \<Rightarrow> int" where
  "meta_description_evaluation pd score =
     (if falsy (metaDescription pd) \<or> metaDescription pd = NO_META then score - 20
      else if length (metaDescription pd) < 120 then score - 10
      else if length (metaDescription pd) > 160 then score - 10
      else score)"

definition headings_evaluation :: "pageData \<Rightarrow> int \<Rightarrow> int" where
  "headings_evaluation pd score =
     (if length (headings pd) = 0 then score - 15
      else if length (headings pd) < 3 then score - 5
      else score)"

definition images_evaluation :: "pageData \<Rightarrow> int \<Rightarrow> int" where
  "images_evaluation pd score =
     (if length (images pd) > 20 then score - 10 else score)"

definition links_evaluation :: "pageData \<Rightarrow> int \<Rightarrow> int" where
  "links_evaluation pd score =
     (if length (links pd) < 3 then score - 10 else score)"

definition calculateSeoScore :: "pageData \<Rightarrow> int" where
  "calculateSeoScore pd =
     (let score = 100;
          score = title_evaluation pd score;
          score = meta_description_evaluation pd score;
          score = headings_evaluation pd score;
          score = images_evaluation pd score;
          score = links_evaluation pd score
      in max 0 (min 100 score))"

subsection \<open>findSeoIssues\<close>

definition CRITICAL :: jsstring where
  "CRITICAL = [0x201A, 0xF9, 0xE5]"

definition WARNING :: jsstring where
  "WARNING = [0x201A, 0xF6, 0x2020, 0xD4, 0x220F, 0xE8]"

definition INFO :: jsstring where
  "INFO = [0x201A, 0xD1, 0x3C0, 0xD4, 0x220F, 0xE8]"

text \<open>\<open>issues.push(x)\<close> and \<open>recommendations.push(x)\<close> append at the end.\<close>

definition push :: "'a list \<Rightarrow> 'a \<Rightarrow> 'a list" where
  "push xs x = xs @ [x]"

definition title_issues :: "pageData \<Rightarrow> jsstring list \<Rightarrow> jsstring list" where
  "title_issues pd issues =
     (if falsy (title pd) \<or> title pd = NO_TITLE then
        push issues (CRITICAL @ lit '' Missing title tag - critical for SEO'')
      else if length (title pd) < 30 then
        push issues (WARNING @ lit '' Title tag is too short ('' @
          number_toString (length (title pd)) @
          lit '' characters) - should be 50-60 characters'')
      else if length (title pd) > 60 then
        push issues (WARNING @ lit '' Title tag is too long ('' @
          number_toString (length (title pd)) @
          lit '' characters) - may be truncated in search results'')
      else issues)"

definition meta_description_issues :: "pageData \<Rightarrow> jsstring list \<Rightarrow> jsstring list" where
  "meta_description_issues pd issues =
     (if falsy (metaDescription pd) \<or> metaDescription pd = NO_META then
        push issues
          (CRITICAL @ lit '' Missing meta description - important for click-through rates'')
      else if length (metaDescription pd) < 120 then
        push issues (WARNING @ lit '' Meta description is too short ('' @
          number_toString (length (metaDescription pd)) @
          lit '' characters) - should be 150-160 characters'')
      else if length (metaDescription pd) > 160 then
        push issues (WARNING @ lit '' Meta description is too long ('' @
          number_toString (length (metaDescription pd)) @
          lit '' characters) - will be truncated'')
      else issues)"

definition heading_issues :: "pageData \<Rightarrow> jsstring list \<Rightarrow> jsstring list" where
  "heading_issues pd issues =
     (if length (headings pd) = 0 then
        push issues
          (CRITICAL @ lit '' No heading tags (H1-H6) found - critical for content structure'')
      else if length (headings pd) < 3 then
        push issues (WARNING @
          lit '' Low number of headings - consider adding more subheadings for better structure'')
      else issues)"

definition NO_IMAGES_ISSUE :: jsstring where
  "NO_IMAGES_ISSUE = INFO @ lit '' No images found - visual content can improve engagement''"

definition image_issues :: "pageData \<Rightarrow> jsstring list \<Rightarrow> jsstring list" where
  "image_issues pd issues =
     (if length (images pd) = 0 then push issues NO_IMAGES_ISSUE
      else if length (images pd) > 20 then
        push issues (WARNING @ lit '' High number of images ('' @
          number_toString (length (images pd)) @
          lit '') - ensure optimization to prevent slow load times'')
      else issues)"

definition link_issues :: "pageData \<Rightarrow> jsstring list \<Rightarrow> jsstring list" where
  "link_issues pd issues =
     (if length (links pd) < 3 then
        push issues (WARNING @
          lit '' Low number of internal links - improve site structure with more linking'')
      else issues)"

definition findSeoIssues :: "pageData \<Rightarrow> jsstring list" where
  "findSeoIssues pd =
     (let issues = [];
          issues = title_issues pd issues;
          issues = meta_description_issues pd issues;
          issues = heading_issues pd issues;
          issues = image_issues pd issues;
          issues = link_issues pd issues
      in issues)"

subsection \<open>generateRecommendations\<close>

definition HIGH :: jsstring where "HIGH = lit ''High''"
definition MEDIUM :: jsstring where "MEDIUM = lit ''Medium''"
definition LOW :: jsstring where "LOW = lit ''Low''"

definition TITLE_REC :: recommendation where
  "TITLE_REC = \<lparr>rtext = [0xF8FF, 0xFC, 0xEC, 0xF9] @
      lit '' Add a descriptive, keyword-rich title tag (50-60 characters)'',
    priority = HIGH\<rparr>"

definition META_REC :: recommendation where
  "META_REC = \<lparr>rtext = [0xF8FF, 0xFC, 0xEC, 0xF9] @
      lit '' Create a compelling meta description (150-160 characters) with a call-to-action'',
    priority = HIGH\<rparr>"

definition HEADING_REC :: recommendation where
  "HEADING_REC = \<lparr>rtext = [0xF8FF, 0xFC, 0xE8, 0xF3, 0xD4, 0x220F, 0xE8] @
      lit '' Implement proper heading structure (H1 for title, H2-H6 for sections)'',
    priority = HIGH\<rparr>"

definition IMAGES_REC :: recommendation where
  "IMAGES_REC = \<lparr>rtext = [0xF8FF, 0xFC, 0xF1, 0xBA, 0xD4, 0x220F, 0xE8] @
      lit '' Ensure all images have descriptive alt text for accessibility and SEO'',
    priority = MEDIUM\<rparr>"

definition SPEED_REC :: recommendation where
  "SPEED_REC = \<lparr>rtext = [0x201A, 0xF6, 0xB0] @
      lit '' Optimize page load speed - compress images, minify CSS/JS, use CDN'',
    priority = MEDIUM\<rparr>"

definition LINKING_REC :: recommendation where
  "LINKING_REC = \<lparr>rtext = [0xF8FF, 0xFC, 0xEE, 0xF3] @
      lit '' Add 3-5 internal links to relevant pages to improve site structure'',
    priority = MEDIUM\<rparr>"

definition MOBILE_REC :: recommendation where
  "MOBILE_REC = \<lparr>rtext = [0xF8FF, 0xFC, 0xEC, 0xB1] @
      lit '' Verify mobile responsiveness - Google uses mobile-first indexing'',
    priority = MEDIUM\<rparr>"

definition HTTPS_REC :: recommendation where
  "HTTPS_REC = \<lparr>rtext = [0xF8FF, 0xFC, 0xEE, 0xED] @
      lit '' Ensure HTTPS is properly configured across the entire site'',
    priority = LOW\<rparr>"

definition SITEMAP_REC :: recommendation where
  "SITEMAP_REC = \<lparr>rtext = [0xF8FF, 0xFC, 0xF3, 0x222B, 0xD4, 0x220F, 0xE8] @
      lit '' Submit XML sitemap to Google Search Console for better indexing'',
    priority = LOW\<rparr>"

definition generateRecommendations :: "pageData \<Rightarrow> recommendation list" where
  "generateRecommendations pd =
     (let recommendations = [];
          recommendations =
            (if falsy (title pd) \<or> title pd = NO_TITLE \<or> length (title pd) < 50
             then push recommendations TITLE_REC else recommendations);
          recommendations =
            (if falsy (metaDescription pd) \<or> metaDescription pd = NO_META
             then push recommendations META_REC else recommendations);
          recommendations =
            (if length (headings pd) = 0
             then push recommendations HEADING_REC else recommendations);
          recommendations = push recommendations IMAGES_REC;
          recommendations = push recommendations SPEED_REC;
          recommendations = push recommendations LINKING_REC;
          recommendations = push recommendations MOBILE_REC;
          recommendations = push recommendations HTTPS_REC;
          recommendations = push recommendations SITEMAP_REC
      in recommendations)"

section \<open>HTML feature extractor\<close>

subsection \<open>Regular expressions of the host language\<close>

text \<open>
  The extractors are regular expressions. Every pattern of the worker is a sequence of
  single characters and character classes, some under \<open>*\<close>, \<open>+\<close> or \<open>*?\<close>, around one
  capturing group. \<open>run\<close> is the backtracking matcher for such a sequence: it matches the
  pattern against a prefix of \<open>s\<close>, \<open>k\<close> counts the code units consumed, and \<open>cap\<close> holds
  the start and the end of the group. A greedy quantifier tries the longer match first, a
  lazy one the shorter; on failure of the rest of the pattern the other choice is taken.
\<close>

datatype atom =
    Chr "jschar \<Rightarrow> bool"
  | Many "jschar \<Rightarrow> bool"
  | Many1 "jschar \<Rightarrow> bool"
  | Few "jschar \<Rightarrow> bool"
  | GroupOpen
  | GroupClose

fun run :: "atom list \<Rightarrow> jsstring \<Rightarrow> nat \<Rightarrow> nat \<times> nat \<Rightarrow> (nat \<times> nat \<times> nat) option" where
  "run [] s k cap = Some (k, cap)"
| "run (Chr p # r) [] k cap = None"
| "run (Chr p # r) (x # xs) k cap = (if p x then run r xs (Suc k) cap else None)"
| "run (Many p # r) [] k cap = run r [] k cap"
| "run (Many p # r) (x # xs) k cap =
     (if p x then
        (case run (Many p # r) xs (Suc k) cap of
           Some m \<Rightarrow> Some m
         | None \<Rightarrow> run r (x # xs) k cap)
      else run r (x # xs) k cap)"
| "run (Many1 p # r) [] k cap = None"
| "run (Many1 p # r) (x # xs) k cap = (if p x then run (Many p # r) xs (Suc k) cap else None)"
| "run (Few p # r) [] k cap = run r [] k cap"
| "run (Few p # r) (x # xs) k cap =
     (case run r (x # xs) k cap of
        Some m \<Rightarrow> Some m
      | None \<Rightarrow> if p x then run (Few p # r) xs (Suc k) cap else None)"
| "run (GroupOpen # r) s k cap = run r s k (k, snd cap)"
| "run (GroupClose # r) s k cap = run r s k (fst cap, k)"

text \<open>
  A match: the matched text (\<open>match[0]\<close>) and the text of the group (\<open>match[1]\<close>).
\<close>

record rmatch =
  whole :: jsstring
  group1 :: jsstring

definition match_at :: "atom list \<Rightarrow> jsstring \<Rightarrow> rmatch option" where
  "match_at re s =
     (case run re s 0 (0, 0) of
        None \<Rightarrow> None
      | Some (e, a, b) \<Rightarrow> Some \<lparr>whole = take e s, group1 = take (b - a) (drop a s)\<rparr>)"

text \<open>
  \<open>s.match(re)\<close> without the \<open>g\<close> flag: the first start index, from the left, at which the
  pattern matches; the empty suffix is tried last.
\<close>

fun exec :: "atom list \<Rightarrow> jsstring \<Rightarrow> rmatch option" where
  "exec re [] = match_at re []"
| "exec re (x # xs) =
     (case match_at re (x # xs) of
        Some m \<Rightarrow> Some m
      | None \<Rightarrow> exec re xs)"

text \<open>
  With the \<open>g\<close> flag (\<open>match\<close>, \<open>matchAll\<close>, \<open>replace\<close>) the search resumes where the last
  match ended, one code unit further after an empty match. \<open>scan re n s\<close> skips \<open>n\<close> code
  units that a match has consumed and then searches on.
\<close>

fun scan :: "atom list \<Rightarrow> nat \<Rightarrow> jsstring \<Rightarrow> rmatch list" where
  "scan re 0 [] = (case match_at re [] of Some m \<Rightarrow> [m] | None \<Rightarrow> [])"
| "scan re (Suc n) [] = []"
| "scan re 0 (x # xs) =
     (case match_at re (x # xs) of
        Some m \<Rightarrow> m # scan re (length (whole m) - 1) xs
      | None \<Rightarrow> scan re 0 xs)"
| "scan re (Suc n) (x # xs) = scan re n xs"

text \<open>
  \<open>s.replace(re, rep)\<close> with the \<open>g\<close> flag, for a replacement without \<open>$\<close>: the code
  units outside of the matches are kept, each match becomes \<open>rep\<close>.
\<close>

fun replace_scan :: "atom list \<Rightarrow> jsstring \<Rightarrow> nat \<Rightarrow> jsstring \<Rightarrow> jsstring" where
  "replace_scan re rep 0 [] = (case match_at re [] of Some m \<Rightarrow> rep | None \<Rightarrow> [])"
| "replace_scan re rep (Suc n) [] = []"
| "replace_scan re rep 0 (x # xs) =
     (case match_at re (x # xs) of
        Some m \<Rightarrow>
          rep @ (if whole m = [] then [x] else []) @
          replace_scan re rep (length (whole m) - 1) xs
      | None \<Rightarrow> x # replace_scan re rep 0 xs)"
| "replace_scan re rep (Suc n) (x # xs) = replace_scan re rep n xs"

subsection \<open>Character classes\<close>

text \<open>
  With the \<open>i\<close> flag and without the \<open>u\<close> flag, an ASCII character of a pattern matches a
  code unit exactly when the two are equal up to the case of the ASCII letters: a code unit
  from 128 on never canonicalizes to an ASCII one.
\<close>

definition ascii_lower :: "jschar \<Rightarrow> jschar" where
  "ascii_lower x = (if 0x41 \<le> x \<and> x \<le> 0x5A then x + 0x20 else x)"

definition chr_i :: "char \<Rightarrow> atom" where
  "chr_i c = Chr (\<lambda>x. ascii_lower x = ascii_lower (of_nat (of_char c)))"

definition lit_i :: "string \<Rightarrow> atom list" where
  "lit_i s = map chr_i s"

text \<open>\<open>.\<close> matches every code unit but the four line terminators; \<open>\\s\<close> matches white
  space and line terminators.\<close>

definition dot :: "jschar \<Rightarrow> bool" where
  "dot x = (x \<notin> {0x0A, 0x0D, 0x2028, 0x2029})"

definition space :: "jschar \<Rightarrow> bool" where
  "space x = (x \<in> {0x09, 0x0A, 0x0B, 0x0C, 0x0D, 0x20, 0xA0, 0x1680, 0x2028, 0x2029, 0x202F,
       0x205F, 0x3000, 0xFEFF} \<or> (0x2000 \<le> x \<and> x \<le> 0x200A))"

definition quote :: "jschar \<Rightarrow> bool" where
  "quote x = (x \<in> {0x22, 0x27})"

definition not_quote :: "jschar \<Rightarrow> bool" where
  "not_quote x = (x \<notin> {0x22, 0x27})"

definition not_gt :: "jschar \<Rightarrow> bool" where
  "not_gt x = (x \<noteq> 0x3E)"

definition digit_1_6 :: "jschar \<Rightarrow> bool" where
  "digit_1_6 x = (0x31 \<le> x \<and> x \<le> 0x36)"

subsection \<open>The patterns and the extractors\<close>

definition TITLE_RE :: "atom list" where
  "TITLE_RE = lit_i ''<title>'' @ [GroupOpen, Few dot, GroupClose] @ lit_i ''</title>''"

definition META_RE :: "atom list" where
  "META_RE =
     lit_i ''<meta'' @ [Many1 space] @ lit_i ''name='' @ [Chr quote] @ lit_i ''description'' @
     [Chr quote, Many1 space] @ lit_i ''content='' @
     [Chr quote, GroupOpen, Few dot, GroupClose, Chr quote]"

definition HEADING_RE :: "atom list" where
  "HEADING_RE =
     lit_i ''<h'' @ [Chr digit_1_6, Many not_gt] @ lit_i ''>'' @
     [GroupOpen, Few dot, GroupClose] @ lit_i ''</h'' @ [Chr digit_1_6] @ lit_i ''>''"

definition TAG_RE :: "atom list" where
  "TAG_RE = [Chr (\<lambda>x. x = 0x3C), Many not_gt, Chr (\<lambda>x. x = 0x3E)]"

definition IMG_RE :: "atom list" where
  "IMG_RE =
     lit_i ''<img'' @ [Many1 not_gt] @ lit_i ''src='' @
     [Chr quote, GroupOpen, Many1 not_quote, GroupClose, Chr quote]"

definition LINK_RE :: "atom list" where
  "LINK_RE =
     lit_i ''<a'' @ [Many1 not_gt] @ lit_i ''href='' @
     [Chr quote, GroupOpen, Many1 not_quote, GroupClose, Chr quote]"

definition extractTitle :: "jsstring \<Rightarrow> jsstring" where
  "extractTitle markup =
     (case exec TITLE_RE markup of None \<Rightarrow> NO_TITLE | Some m \<Rightarrow> group1 m)"

definition extractMetaDescription :: "jsstring \<Rightarrow> jsstring" where
  "extractMetaDescription markup =
     (case exec META_RE markup of None \<Rightarrow> NO_META | Some m \<Rightarrow> group1 m)"

definition extractHeadings :: "jsstring \<Rightarrow> jsstring list" where
  "extractHeadings markup =
     (let matches = map whole (scan HEADING_RE 0 markup)
      in map (\<lambda>h. replace_scan TAG_RE [] 0 h) matches)"

definition extractImages :: "jsstring \<Rightarrow> jsstring list" where
  "extractImages markup = (let matches = scan IMG_RE 0 markup in map group1 matches)"

definition extractLinks :: "jsstring \<Rightarrow> jsstring list" where
  "extractLinks markup = (let matches = scan LINK_RE 0 markup in map group1 matches)"

text \<open>Step 1 of \<open>analyzeSeoMultiStep\<close>: the features of the fetched text.\<close>

definition pageData_of :: "jsstring \<Rightarrow> pageData" where
  "pageData_of markup =
     \<lparr>html = markup,
      title = extractTitle markup,
      metaDescription = extractMetaDescription markup,
      headings = extractHeadings markup,
      images = extractImages markup,
      links = extractLinks markup\<rparr>"

section \<open>JSON of the host language\<close>

text \<open>
  The values that \<open>JSON.stringify\<close> writes and \<open>JSON.parse\<close> reads. An object is the list
  of its members in property order. Numbers: the worker stores only integers (the score);
  \<open>JNum\<close> is an integer, and a literal with a fraction or an exponent is kept as its text
  (\<open>JDec\<close>), the floating-point number it denotes is not modelled. Object keys that are array
  indices, which the host language enumerates first, do not occur among the worker's keys
  and are not reordered here.
\<close>

datatype json =
    JNull
  | JBool bool
  | JNum int
  | JDec jsstring
  | JStr jsstring
  | JArr "json list"
  | JObj "(jsstring \<times> json) list"

text \<open>\<open>xs.join(sep)\<close> on strings.\<close>

fun join :: "jsstring \<Rightarrow> jsstring list \<Rightarrow> jsstring" where
  "join sep [] = []"
| "join sep [x] = x"
| "join sep (x # y # ys) = x @ sep @ join sep (y # ys)"

subsection \<open>JSON.stringify\<close>

text \<open>
  \<open>QuoteJSONString\<close>: the two-character escapes, \<open>\<^verbatim>\<open>\u\<close>\<close> with four lower-case hex digits for the
  other control characters and for a surrogate that is not part of a pair, every other code
  unit as it is.
\<close>

definition hexdigit :: "nat \<Rightarrow> jschar" where
  "hexdigit d = (if d < 10 then of_nat (48 + d) else of_nat (87 + d))"

definition uescape :: "jschar \<Rightarrow> jsstring" where
  "uescape x =
     [0x5C, 0x75, hexdigit (unat x div 4096), hexdigit (unat x div 256 mod 16),
      hexdigit (unat x div 16 mod 16), hexdigit (unat x mod 16)]"

definition is_high :: "jschar \<Rightarrow> bool" where
  "is_high x = (0xD800 \<le> x \<and> x \<le> 0xDBFF)"

definition is_low :: "jschar \<Rightarrow> bool" where
  "is_low x = (0xDC00 \<le> x \<and> x \<le> 0xDFFF)"

definition quote_unit :: "jschar \<Rightarrow> jsstring" where
  "quote_unit x =
     (if x = 0x08 then [0x5C, 0x62]
      else if x = 0x09 then [0x5C, 0x74]
      else if x = 0x0A then [0x5C, 0x6E]
      else if x = 0x0C then [0x5C, 0x66]
      else if x = 0x0D then [0x5C, 0x72]
      else if x = 0x22 then [0x5C, 0x22]
      else if x = 0x5C then [0x5C, 0x5C]
      else if x < 0x20 then uescape x
      else [x])"

fun quote_units :: "jsstring \<Rightarrow> jsstring" where
  "quote_units [] = []"
| "quote_units [x] = (if is_high x \<or> is_low x then uescape x else quote_unit x)"
| "quote_units (x # y # ys) =
     (if is_high x \<and> is_low y then x # y # quote_units ys
      else if is_high x \<or> is_low x then uescape x @ quote_units (y # ys)
      else quote_unit x @ quote_units (y # ys))"

definition QuoteJSONString :: "jsstring \<Rightarrow> jsstring" where
  "QuoteJSONString s = [0x22] @ quote_units s @ [0x22]"

fun JSON_stringify :: "json \<Rightarrow> jsstring" where
  "JSON_stringify JNull = lit ''null''"
| "JSON_stringify (JBool b) = (if b then lit ''true'' else lit ''false'')"
| "JSON_stringify (JNum n) =
     (if n < 0 then 0x2D # number_toString (nat (- n)) else number_toString (nat n))"
| "JSON_stringify (JDec t) = t"
| "JSON_stringify (JStr s) = QuoteJSONString s"
| "JSON_stringify (JArr vs) = [0x5B] @ join [0x2C] (map JSON_stringify vs) @ [0x5D]"
| "JSON_stringify (JObj ms) =
     [0x7B] @
     join [0x2C] (map (\<lambda>m. QuoteJSONString (fst m) @ [0x3A] @ JSON_stringify (snd m)) ms) @
     [0x7D]"

subsection \<open>JSON.parse\<close>

text \<open>
  A recursive-descent reader of the JSON grammar. \<open>parse_chars\<close> reads a string after its
  opening quote, \<open>parse_number\<close> a number (sign, integer part without leading zeros,
  optional fraction and exponent). \<open>parse_value\<close>, \<open>parse_elements\<close> and \<open>parse_members\<close>
  descend into arrays and objects; their first argument bounds the number of nested calls,
  and \<open>JSON_parse\<close> starts them with one more than the length of the text, which every
  text allows for since each call below the first consumes a code unit. A member whose key
  is already present replaces the earlier value. \<open>None\<close> is the SyntaxError.
\<close>

definition ws :: "jschar \<Rightarrow> bool" where
  "ws x = (x \<in> {0x20, 0x09, 0x0A, 0x0D})"

definition skip_ws :: "jsstring \<Rightarrow> jsstring" where
  "skip_ws s = dropWhile ws s"

definition hexval :: "jschar \<Rightarrow> nat option" where
  "hexval x =
     (if 0x30 \<le> x \<and> x \<le> 0x39 then Some (unat x - 48)
      else if 0x41 \<le> x \<and> x \<le> 0x46 then Some (unat x - 55)
      else if 0x61 \<le> x \<and> x \<le> 0x66 then Some (unat x - 87)
      else None)"

definition unescape :: "jschar \<Rightarrow> jschar option" where
  "unescape e =
     (if e = 0x22 then Some 0x22
      else if e = 0x5C then Some 0x5C
      else if e = 0x2F then Some 0x2F
      else if e = 0x62 then Some 0x08
      else if e = 0x66 then Some 0x0C
      else if e = 0x6E then Some 0x0A
      else if e = 0x72 then Some 0x0D
      else if e = 0x74 then Some 0x09
      else None)"

datatype smode = Plain | Escape | Hex nat nat

fun parse_chars :: "smode \<Rightarrow> jsstring \<Rightarrow> jsstring \<Rightarrow> (jsstring \<times> jsstring) option" where
  "parse_chars m acc [] = None"
| "parse_chars Plain acc (x # xs) =
     (if x = 0x22 then Some (acc, xs)
      else if x = 0x5C then parse_chars Escape acc xs
      else if x < 0x20 then None
      else parse_chars Plain (acc @ [x]) xs)"
| "parse_chars Escape acc (x # xs) =
     (if x = 0x75 then parse_chars (Hex 4 0) acc xs
      else (case unescape x of
              None \<Rightarrow> None
            | Some c \<Rightarrow> parse_chars Plain (acc @ [c]) xs))"
| "parse_chars (Hex n v) acc (x # xs) =
     (case hexval x of
        None \<Rightarrow> None
      | Some d \<Rightarrow>
          if n \<le> 1 then parse_chars Plain (acc @ [of_nat (16 * v + d)]) xs
          else parse_chars (Hex (n - 1) (16 * v + d)) acc xs)"

definition is_digit :: "jschar \<Rightarrow> bool" where
  "is_digit x = (0x30 \<le> x \<and> x \<le> 0x39)"

definition digits_value :: "jsstring \<Rightarrow> nat" where
  "digits_value ds = foldl (\<lambda>v x. 10 * v + (unat x - 48)) 0 ds"

definition parse_number :: "jsstring \<Rightarrow> (json \<times> jsstring) option" where
  "parse_number s =
     (let neg = (s \<noteq> [] \<and> hd s = 0x2D);
          s1 = (if neg then tl s else s);
          ds = takeWhile is_digit s1;
          r1 = dropWhile is_digit s1;
          has_frac = (r1 \<noteq> [] \<and> hd r1 = 0x2E);
          fs = (if has_frac then takeWhile is_digit (tl r1) else []);
          r2 = (if has_frac then dropWhile is_digit (tl r1) else r1);
          has_exp = (r2 \<noteq> [] \<and> hd r2 \<in> {0x65, 0x45});
          r3 = (if has_exp then tl r2 else r2);
          has_sign = (has_exp \<and> r3 \<noteq> [] \<and> hd r3 \<in> {0x2B, 0x2D});
          r4 = (if has_sign then tl r3 else r3);
          es = (if has_exp then takeWhile is_digit r4 else []);
          r5 = (if has_exp then dropWhile is_digit r4 else r4)
      in if ds = [] \<or> (length ds > 1 \<and> hd ds = 0x30) then None
         else if has_frac \<and> fs = [] then None
         else if has_exp \<and> es = [] then None
         else if has_frac \<or> has_exp then Some (JDec (take (length s - length r5) s), r5)
         else Some (JNum (if neg then - int (digits_value ds) else int (digits_value ds)), r1))"

fun upsert :: "jsstring \<Rightarrow> json \<Rightarrow> (jsstring \<times> json) list \<Rightarrow> (jsstring \<times> json) list" where
  "upsert k v [] = [(k, v)]"
| "upsert k v (m # ms) = (if fst m = k then (k, v) # ms else m # upsert k v ms)"

definition starts_with :: "jsstring \<Rightarrow> jsstring \<Rightarrow> bool" where
  "starts_with w s = (take (length w) s = w)"

fun parse_value :: "nat \<Rightarrow> jsstring \<Rightarrow> (json \<times> jsstring) option"
  and parse_elements :: "nat \<Rightarrow> json list \<Rightarrow> jsstring \<Rightarrow> (json \<times> jsstring) option"
  and parse_members :: "nat \<Rightarrow> (jsstring \<times> json) list \<Rightarrow> jsstring \<Rightarrow> (json \<times> jsstring) option"
where
  "parse_value 0 s = None"
| "parse_value (Suc n) s =
     (case skip_ws s of
        [] \<Rightarrow> None
      | x # xs \<Rightarrow>
          if x = 0x7B then
            (case skip_ws xs of
               [] \<Rightarrow> None
             | y # ys \<Rightarrow> if y = 0x7D then Some (JObj [], ys) else parse_members n [] (y # ys))
          else if x = 0x5B then
            (case skip_ws xs of
               [] \<Rightarrow> None
             | y # ys \<Rightarrow> if y = 0x5D then Some (JArr [], ys) else parse_elements n [] (y # ys))
          else if x = 0x22 then
            map_option (\<lambda>r. (JStr (fst r), snd r)) (parse_chars Plain [] xs)
          else if starts_with (lit ''true'') (x # xs) then Some (JBool True, drop 4 (x # xs))
          else if starts_with (lit ''false'') (x # xs) then Some (JBool False, drop 5 (x # xs))
          else if starts_with (lit ''null'') (x # xs) then Some (JNull, drop 4 (x # xs))
          else parse_number (x # xs))"
| "parse_elements 0 acc s = None"
| "parse_elements (Suc n) acc s =
     (case parse_value n s of
        None \<Rightarrow> None
      | Some (v, r) \<Rightarrow>
          (case skip_ws r of
             [] \<Rightarrow> None
           | y # ys \<Rightarrow>
               if y = 0x2C then parse_elements n (acc @ [v]) ys
               else if y = 0x5D then Some (JArr (acc @ [v]), ys)
               else None))"
| "parse_members 0 acc s = None"
| "parse_members (Suc n) acc s =
     (case skip_ws s of
        [] \<Rightarrow> None
      | q # qs \<Rightarrow>
          if q \<noteq> 0x22 then None
          else
            (case parse_chars Plain [] qs of
               None \<Rightarrow> None
             | Some (k, r) \<Rightarrow>
                 (case skip_ws r of
                    [] \<Rightarrow> None
                  | c # cs \<Rightarrow>
                      if c \<noteq> 0x3A then None
                      else
                        (case parse_value n cs of
                           None \<Rightarrow> None
                         | Some (v, r') \<Rightarrow>
                             (case skip_ws r' of
                                [] \<Rightarrow> None
                              | y # ys \<Rightarrow>
                                  if y = 0x2C then parse_members n (upsert k v acc) ys
                                  else if y = 0x7D then Some (JObj (upsert k v acc), ys)
                                  else None)))))"

definition JSON_parse :: "jsstring \<Rightarrow> json option" where
  "JSON_parse s =
     (case parse_value (Suc (length s)) s of
        None \<Rightarrow> None
      | Some (v, r) \<Rightarrow> if skip_ws r = [] then Some v else None)"

section \<open>Orchestrator and request handlers\<close>

text \<open>What a failing call throws: an \<open>Error\<close> with its message, or some other value.\<close>

datatype thrown = Error jsstring | NonError

text \<open>
  A match of the vector index with its metadata; \<open>None\<close> is \<open>undefined\<close>. The metadata
  fields that the worker reads are modelled as strings or absent.
\<close>

record vmetadata =
  mtext :: "jsstring option"
  msource :: "jsstring option"

record vmatch =
  vmeta :: "vmetadata option"

text \<open>The \<open>analysis\<close> object of \<open>analyzeSeoMultiStep\<close>.\<close>

record analysis =
  score :: int
  issues :: "jsstring list"
  recommendations :: "recommendation list"
  ragContext :: jsstring

subsection \<open>Collaborators\<close>

text \<open>
  The bindings \<open>AI\<close>, \<open>VECTORIZE\<close>, \<open>DB\<close> and \<open>CACHE\<close> and the network are outside of the
  worker. An environment says what \<open>fetch\<close> followed by \<open>response.text()\<close>, the embedding
  model (its \<open>data[0]\<close>), the vector query (its \<open>matches\<close>) and the text model (its
  \<open>response\<close>) return or throw, which operations of the database and of the cache throw,
  and what \<open>JSON.parse\<close> throws on a malformed text. The world holds the cache, the two
  tables and the list of the calls made so far. Expiry of cache entries belongs to the
  store: the \<open>cache\<close> of a world is what the store still holds.
\<close>

datatype call =
    Fetch jsstring
  | Embed "jsstring option"
  | VectorQuery nat
  | Generate
  | DbInsert jsstring
  | DbSelect "jsstring option"
  | DbUpsert "jsstring option"
  | CacheGet jsstring
  | CachePut jsstring

record 'v env =
  fetch_text :: "jsstring \<Rightarrow> thrown + jsstring"
  embed :: "jsstring option \<Rightarrow> thrown + 'v"
  vector_query :: "'v \<Rightarrow> nat \<Rightarrow> thrown + vmatch list"
  generate :: "jsstring \<Rightarrow> jsstring option \<Rightarrow> thrown + jsstring option"
  store_fault :: "call \<Rightarrow> thrown option"
  syntax_error :: "jsstring \<Rightarrow> thrown"

record world =
  cache :: "jsstring \<Rightarrow> jsstring option"
  seo_analyses :: "(jsstring \<times> jsstring \<times> int \<times> jsstring) list"
  user_sessions :: "jsstring option \<Rightarrow> jsstring option"
  calls :: "call list"

text \<open>
  An \<open>async\<close> computation: it changes the world and returns a value or throws.
  \<open>io_bind\<close> is \<open>await\<close> followed by the rest of the function, \<open>io_catch\<close> is
  \<open>try { ... } catch (error) { ... }\<close>.
\<close>

type_synonym 'a io = "world \<Rightarrow> (thrown + 'a) \<times> world"

definition io_return :: "'a \<Rightarrow> 'a io" where
  "io_return x = (\<lambda>w. (Inr x, w))"

definition io_throw :: "thrown \<Rightarrow> 'a io" where
  "io_throw e = (\<lambda>w. (Inl e, w))"

definition io_bind :: "'a io \<Rightarrow> ('a \<Rightarrow> 'b io) \<Rightarrow> 'b io" where
  "io_bind m f = (\<lambda>w. case m w of (Inl e, w') \<Rightarrow> (Inl e, w') | (Inr x, w') \<Rightarrow> f x w')"

definition io_catch :: "'a io \<Rightarrow> (thrown \<Rightarrow> world \<Rightarrow> 'a \<times> world) \<Rightarrow> world \<Rightarrow> 'a \<times> world" where
  "io_catch m h = (\<lambda>w. case m w of (Inl e, w') \<Rightarrow> h e w' | (Inr x, w') \<Rightarrow> (x, w'))"

text \<open>Every call to a collaborator is recorded, also when it throws.\<close>

definition invoke :: "call \<Rightarrow> world \<Rightarrow> world" where
  "invoke c w = w\<lparr>calls := calls w @ [c]\<rparr>"

definition call_fetch :: "'v env \<Rightarrow> jsstring \<Rightarrow> jsstring io" where
  "call_fetch env url = (\<lambda>w. (fetch_text env url, invoke (Fetch url) w))"

definition call_embed :: "'v env \<Rightarrow> jsstring option \<Rightarrow> 'v io" where
  "call_embed env t = (\<lambda>w. (embed env t, invoke (Embed t) w))"

definition call_query :: "'v env \<Rightarrow> 'v \<Rightarrow> nat \<Rightarrow> vmatch list io" where
  "call_query env v topK = (\<lambda>w. (vector_query env v topK, invoke (VectorQuery topK) w))"

definition call_generate :: "'v env \<Rightarrow> jsstring \<Rightarrow> jsstring option \<Rightarrow> jsstring option io" where
  "call_generate env sys usr = (\<lambda>w. (generate env sys usr, invoke Generate w))"

definition store_op :: "'v env \<Rightarrow> call \<Rightarrow> (world \<Rightarrow> 'a \<times> world) \<Rightarrow> 'a io" where
  "store_op env c f =
     (\<lambda>w. case store_fault env c of
             Some e \<Rightarrow> (Inl e, invoke c w)
           | None \<Rightarrow> (case f (invoke c w) of (x, w') \<Rightarrow> (Inr x, w')))"

definition db_insert :: "'v env \<Rightarrow> jsstring \<Rightarrow> jsstring \<Rightarrow> int \<Rightarrow> jsstring \<Rightarrow> unit io" where
  "db_insert env url analysis_data sc recs =
     store_op env (DbInsert url)
       (\<lambda>w. ((), w\<lparr>seo_analyses := seo_analyses w @ [(url, analysis_data, sc, recs)]\<rparr>))"

definition db_select :: "'v env \<Rightarrow> jsstring option \<Rightarrow> jsstring option io" where
  "db_select env sid = store_op env (DbSelect sid) (\<lambda>w. (user_sessions w sid, w))"

definition db_upsert :: "'v env \<Rightarrow> jsstring option \<Rightarrow> jsstring \<Rightarrow> unit io" where
  "db_upsert env sid ctx =
     store_op env (DbUpsert sid)
       (\<lambda>w. ((), w\<lparr>user_sessions := (user_sessions w)(sid := Some ctx)\<rparr>))"

definition cache_get :: "'v env \<Rightarrow> jsstring \<Rightarrow> jsstring option io" where
  "cache_get env key = store_op env (CacheGet key) (\<lambda>w. (cache w key, w))"

definition cache_put :: "'v env \<Rightarrow> jsstring \<Rightarrow> jsstring \<Rightarrow> unit io" where
  "cache_put env key val =
     store_op env (CachePut key) (\<lambda>w. ((), w\<lparr>cache := (cache w)(key := Some val)\<rparr>))"

subsection \<open>analyzeSeoMultiStep\<close>

text \<open>\<open>x || d\<close> for a string or \<open>undefined\<close>.\<close>

definition or_else :: "jsstring option \<Rightarrow> jsstring \<Rightarrow> jsstring" where
  "or_else x d = (case x of None \<Rightarrow> d | Some s \<Rightarrow> if falsy s then d else s)"

definition text_of :: "vmatch \<Rightarrow> jsstring option" where
  "text_of m = (case vmeta m of None \<Rightarrow> None | Some md \<Rightarrow> mtext md)"

definition source_of :: "vmatch \<Rightarrow> jsstring option" where
  "source_of m = (case vmeta m of None \<Rightarrow> None | Some md \<Rightarrow> msource md)"

text \<open>
  \<open>matches.map((m) => m.metadata?.text || '').filter(Boolean).join('\n\n')\<close>, the same in
  both places.
\<close>

definition rag_context :: "vmatch list \<Rightarrow> jsstring" where
  "rag_context matches =
     join [0x0A, 0x0A] (filter (\<lambda>s. \<not> falsy s) (map (\<lambda>m. or_else (text_of m) []) matches))"

text \<open>
  Objects as \<open>JSON.stringify\<close> and \<open>c.json\<close> see them. A property whose value is
  \<open>undefined\<close> is left out (\<open>members\<close>).
\<close>

definition members :: "(jsstring \<times> json option) list \<Rightarrow> json" where
  "members ms = JObj (concat (map (\<lambda>m. case snd m of None \<Rightarrow> [] | Some v \<Rightarrow> [(fst m, v)]) ms))"

definition pageData_json :: "pageData \<Rightarrow> json" where
  "pageData_json pd =
     JObj [(lit ''html'', JStr (html pd)),
           (lit ''title'', JStr (title pd)),
           (lit ''metaDescription'', JStr (metaDescription pd)),
           (lit ''headings'', JArr (map JStr (headings pd))),
           (lit ''images'', JArr (map JStr (images pd))),
           (lit ''links'', JArr (map JStr (links pd)))]"

definition recommendation_json :: "recommendation \<Rightarrow> json" where
  "recommendation_json r = JObj [(lit ''text'', JStr (rtext r)), (lit ''priority'', JStr (priority r))]"

definition recommendations_json :: "recommendation list \<Rightarrow> json" where
  "recommendations_json rs = JArr (map recommendation_json rs)"

definition analysis_json :: "analysis \<Rightarrow> json" where
  "analysis_json a =
     JObj [(lit ''score'', JNum (score a)),
           (lit ''issues'', JArr (map JStr (issues a))),
           (lit ''recommendations'', recommendations_json (recommendations a)),
           (lit ''ragContext'', JStr (ragContext a))]"

definition result_json :: "pageData \<times> analysis \<Rightarrow> json" where
  "result_json r =
     JObj [(lit ''pageData'', pageData_json (fst r)), (lit ''analysis'', analysis_json (snd r))]"

definition analyzeSeoMultiStep :: "'v env \<Rightarrow> jsstring \<Rightarrow> (pageData \<times> analysis) io" where
  "analyzeSeoMultiStep env url =
     io_bind (call_fetch env url) (\<lambda>markup.
       let pd = pageData_of markup;
           queryText = lit ''SEO analysis for: '' @ title pd @ lit ''. Meta: '' @ metaDescription pd
       in
     io_bind (call_embed env (Some queryText)) (\<lambda>embedding.
     io_bind (call_query env embedding 10) (\<lambda>matches.
       let an = \<lparr>score = calculateSeoScore pd,
                 issues = findSeoIssues pd,
                 recommendations = generateRecommendations pd,
                 ragContext = take 500 (rag_context matches)\<rparr>
       in
     io_bind (db_insert env url (JSON_stringify (pageData_json pd)) (score an)
                (JSON_stringify (recommendations_json (recommendations an)))) (\<lambda>_.
     io_bind (cache_put env (lit ''analysis:'' @ url) (JSON_stringify (result_json (pd, an)))) (\<lambda>_.
     io_return (pd, an))))))"

subsection \<open>The request handlers\<close>

text \<open>
  A response is a status and a JSON body. The body of a request is what
  \<open>await c.req.json()\<close> and the destructuring give: the fields read, each a string or
  absent, or the value thrown.
\<close>

type_synonym response = "nat \<times> json"

definition errorMessage :: "thrown \<Rightarrow> jsstring" where
  "errorMessage e = (case e of Error m \<Rightarrow> m | NonError \<Rightarrow> lit ''Unknown error'')"

definition on_error :: "thrown \<Rightarrow> world \<Rightarrow> response \<times> world" where
  "on_error e = (\<lambda>w. ((500, JObj [(lit ''error'', JStr (errorMessage e))]), w))"

definition req_json :: "thrown + 'a \<Rightarrow> 'a io" where
  "req_json body = (\<lambda>w. (body, w))"

definition post_api_analyze ::
  "'v env \<Rightarrow> thrown + jsstring option \<Rightarrow> world \<Rightarrow> response \<times> world" where
  "post_api_analyze env body =
     io_catch
       (io_bind (req_json body) (\<lambda>url_field.
          let required = io_return (400, JObj [(lit ''error'', JStr (lit ''URL is required''))])
          in
          case url_field of
            None \<Rightarrow> required
          | Some url \<Rightarrow>
              if falsy url then required
              else
                io_bind (cache_get env (lit ''analysis:'' @ url)) (\<lambda>cached.
                  let fresh =
                    io_bind (analyzeSeoMultiStep env url) (\<lambda>result.
                      io_return
                        (200, JObj [(lit ''cached'', JBool False),
                                    (lit ''data'', result_json result),
                                    (lit ''message'', JStr (lit ''Analysis complete''))]))
                  in
                  case cached of
                    None \<Rightarrow> fresh
                  | Some payload \<Rightarrow>
                      if falsy payload then fresh
                      else
                        (case JSON_parse payload of
                           None \<Rightarrow> io_throw (syntax_error env payload)
                         | Some data \<Rightarrow>
                             io_return
                               (200, JObj [(lit ''cached'', JBool True),
                                           (lit ''data'', data),
                                           (lit ''message'',
                                            JStr (lit ''Retrieved from cache''))])))))
       on_error"

text \<open>
  The \<open>sources\<close> of the chat response:
  \<open>matches.map((m) => m.metadata?.source || 'Unknown').filter(Boolean)\<close>.
\<close>

definition chat_sources :: "vmatch list \<Rightarrow> jsstring list" where
  "chat_sources matches =
     filter (\<lambda>s. \<not> falsy s) (map (\<lambda>m. or_else (source_of m) (lit ''Unknown'')) matches)"

definition post_api_chat ::
  "'v env \<Rightarrow> thrown + (jsstring option \<times> jsstring option) \<Rightarrow> world \<Rightarrow> response \<times> world" where
  "post_api_chat env body =
     io_catch
       (io_bind (req_json body) (\<lambda>fields.
          let message = fst fields; sessionId = snd fields in
        io_bind (call_embed env message) (\<lambda>queryEmbedding.
        io_bind (call_query env queryEmbedding 5) (\<lambda>matches.
          let ragText = rag_context matches in
        io_bind (db_select env sessionId) (\<lambda>history.
        io_bind (call_generate env
                   (lit ''You are an expert SEO consultant. Use this knowledge base to provide accurate advice:'' @
                    [0x0A, 0x0A] @ ragText @ [0x0A, 0x0A] @ lit ''Previous context: '' @
                    or_else history (lit ''None''))
                   message) (\<lambda>reply.
        io_bind (db_upsert env sessionId
                   (JSON_stringify (members [(lit ''lastMessage'', map_option JStr message)]))) (\<lambda>_.
        io_return (200, members [(lit ''response'', map_option JStr reply),
                                 (lit ''sources'', Some (JArr (map JStr (chat_sources matches))))]))))))))
       on_error"

section \<open>Vocabulary of the claims\<close>

text \<open>
  \<open>starts_with_ci w s\<close>: the text \<open>s\<close> begins with the ASCII word \<open>w\<close>, up to the case of
  letters. \<open>occurs_ci w s\<close>: the word occurs somewhere in \<open>s\<close>.
\<close>

fun starts_with_ci :: "string \<Rightarrow> jsstring \<Rightarrow> bool" where
  "starts_with_ci [] s = True"
| "starts_with_ci (c # cs) [] = False"
| "starts_with_ci (c # cs) (x # xs) =
     (ascii_lower x = ascii_lower (of_nat (of_char c)) \<and> starts_with_ci cs xs)"

fun occurs_ci :: "string \<Rightarrow> jsstring \<Rightarrow> bool" where
  "occurs_ci w [] = starts_with_ci w []"
| "occurs_ci w (x # xs) = (starts_with_ci w (x # xs) \<or> occurs_ci w xs)"



text \<open>
  The same restricted to one line: \<open>title_text s\<close> is the text in front of the next
  \<open></title>\<close> provided no line terminator comes before it, and \<open>first_title\<close> is the text of
  the first \<open><title>\<close> tag that is closed on its line.
\<close>

fun title_text :: "jsstring \<Rightarrow> jsstring option" where
  "title_text [] = None"
| "title_text (x # xs) =
     (if starts_with_ci ''</title>'' (x # xs) then Some []
      else if dot x then map_option ((#) x) (title_text xs)
      else None)"

fun first_title :: "jsstring \<Rightarrow> jsstring option" where
  "first_title [] = None"
| "first_title (x # xs) =
     (if starts_with_ci ''<title>'' (x # xs) then
        (case title_text (drop 7 (x # xs)) of
           Some t \<Rightarrow> Some t
         | None \<Rightarrow> first_title xs)
      else first_title xs)"

text \<open>
  The elements in the words of the specification, as properties of the text at a place.
  \<open>occurs_where P s\<close>: \<open>P\<close> holds of the text at some place of \<open>s\<close>, its end included.
  \<open>after_word w P\<close>: the text begins with the word \<open>w\<close>, in any case of letters, and \<open>P\<close>
  holds of what follows; \<open>after_unit p P\<close>: it begins with one code unit of the class \<open>p\<close>
  and \<open>P\<close> holds of what follows; \<open>after_run p P\<close>: \<open>P\<close> holds of the text itself or of what
  follows some of its first code units, all of the class \<open>p\<close>; \<open>anything\<close> holds of every
  text.
\<close>

fun occurs_where :: "(jsstring \<Rightarrow> bool) \<Rightarrow> jsstring \<Rightarrow> bool" where
  "occurs_where P [] = P []"
| "occurs_where P (x # xs) = (if P (x # xs) then True else occurs_where P xs)"

definition after_word :: "string \<Rightarrow> (jsstring \<Rightarrow> bool) \<Rightarrow> jsstring \<Rightarrow> bool" where
  "after_word w P s = (if starts_with_ci w s then P (drop (length w) s) else False)"

definition after_unit :: "(jschar \<Rightarrow> bool) \<Rightarrow> (jsstring \<Rightarrow> bool) \<Rightarrow> jsstring \<Rightarrow> bool" where
  "after_unit p P s = (case s of [] \<Rightarrow> False | x # xs \<Rightarrow> if p x then P xs else False)"

fun after_run :: "(jschar \<Rightarrow> bool) \<Rightarrow> (jsstring \<Rightarrow> bool) \<Rightarrow> jsstring \<Rightarrow> bool" where
  "after_run p P [] = P []"
| "after_run p P (x # xs) =
     (if P (x # xs) then True else if p x then after_run p P xs else False)"

definition anything :: "jsstring \<Rightarrow> bool" where
  "anything s = True"





text \<open>The member \<open>k\<close> of a JSON object.\<close>

definition field :: "json \<Rightarrow> jsstring \<Rightarrow> json option" where
  "field v k = (case v of JObj ms \<Rightarrow> map_of ms k | _ \<Rightarrow> None)"

text \<open>
  For the round trip through JSON: a value is well formed when it has no \<open>JDec\<close> and the
  keys of each of its objects are distinct; \<open>roundtrips v\<close> says that the reader, given
  enough calls, reads \<open>v\<close> back from its text in front of any text that starts with a
  comma or a closing bracket.
\<close>

definition follow_ok :: "jsstring \<Rightarrow> bool" where
  "follow_ok rest = (case rest of [] \<Rightarrow> True | x # _ \<Rightarrow> x \<in> {0x2C, 0x5D, 0x7D})"

definition first_ok :: "jschar \<Rightarrow> bool" where
  "first_ok x = (\<not> ws x \<and> x \<noteq> 0x5D \<and> x \<noteq> 0x7D)"

fun wf_json :: "json \<Rightarrow> bool" where
  "wf_json JNull = True"
| "wf_json (JBool b) = True"
| "wf_json (JNum n) = True"
| "wf_json (JDec t) = False"
| "wf_json (JStr s) = True"
| "wf_json (JArr vs) = (\<forall>v \<in> set vs. wf_json v)"
| "wf_json (JObj ms) = (distinct (map fst ms) \<and> (\<forall>m \<in> set ms. wf_json (snd m)))"

definition member_text :: "jsstring \<times> json \<Rightarrow> jsstring" where
  "member_text m = QuoteJSONString (fst m) @ [0x3A] @ JSON_stringify (snd m)"

definition roundtrips :: "json \<Rightarrow> bool" where
  "roundtrips v \<longleftrightarrow>
     (\<forall>n rest. length (JSON_stringify v) \<le> n \<longrightarrow> follow_ok rest \<longrightarrow>
        parse_value n (JSON_stringify v @ rest) = Some (v, rest))"

section \<open>Sample inputs\<close>

text \<open>
  A features value with a title of \<open>t\<close> letters "a", a description of \<open>m\<close> letters "a",
  \<open>h\<close> headings, \<open>i\<close> images and \<open>l\<close> links.
\<close>

definition page :: "nat \<Rightarrow> nat \<Rightarrow> nat \<Rightarrow> nat \<Rightarrow> nat \<Rightarrow> pageData" where
  "page t m h i l =
     \<lparr>html = [], title = replicate t 0x61, metaDescription = replicate m 0x61,
      headings = replicate h [], images = replicate i [], links = replicate l []\<rparr>"

text \<open>
  Two passages of the knowledge base with the same source, the page of the specification's
  scenario, an environment in which every collaborator answers, one in which retrieval finds
  nothing and the text model fails, and the world before any request.
\<close>

definition passage :: "string \<Rightarrow> string \<Rightarrow> vmatch" where
  "passage t s = \<lparr>vmeta = Some \<lparr>mtext = Some (lit t), msource = Some (lit s)\<rparr>\<rparr>"

definition sample_markup :: jsstring where
  "sample_markup = lit ''<html><head><title>Short</title></head><body></body></html>''"

definition sample_url :: jsstring where
  "sample_url = lit ''https://example.com/''"

definition sample_passages :: "vmatch list" where
  "sample_passages =
     [passage ''Title tags should be 50-60 characters long.'' ''SEO Best Practices'',
      passage ''Meta descriptions should be 150-160 characters.'' ''SEO Best Practices'']"

definition sample_env :: "nat env" where
  "sample_env =
     \<lparr>fetch_text = (\<lambda>_. Inr sample_markup),
      embed = (\<lambda>_. Inr 0),
      vector_query = (\<lambda>_ _. Inr sample_passages),
      generate = (\<lambda>_ _. Inr (Some (lit ''Use a longer title.''))),
      store_fault = (\<lambda>_. None),
      syntax_error = (\<lambda>_. Error (lit ''Unexpected token''))\<rparr>"

definition quiet_env :: "unit env" where
  "quiet_env =
     \<lparr>fetch_text = (\<lambda>_. Inr sample_markup),
      embed = (\<lambda>_. Inr ()),
      vector_query = (\<lambda>_ _. Inr []),
      generate = (\<lambda>_ _. Inl NonError),
      store_fault = (\<lambda>_. None),
      syntax_error = (\<lambda>_. NonError)\<rparr>"

definition sample_result :: "vmatch list \<Rightarrow> pageData \<times> analysis" where
  "sample_result matches =
     (pageData_of sample_markup,
      \<lparr>score = calculateSeoScore (pageData_of sample_markup),
       issues = findSeoIssues (pageData_of sample_markup),
       recommendations = generateRecommendations (pageData_of sample_markup),
       ragContext = take 500 (rag_context matches)\<rparr>)"

definition empty_world :: world where
  "empty_world = \<lparr>cache = (\<lambda>_. None), seo_analyses = [], user_sessions = (\<lambda>_. None), calls = []\<rparr>"



section \<open>Properties of the scoring engine\<close>

subsection \<open>Basic facts\<close>

lemma length_lit [simp]: "length (lit s) = length s"
  by (simp add: lit_def)

lemma length_NO_TITLE: "length NO_TITLE = 14"
  by (simp add: NO_TITLE_def)

lemma length_NO_META: "length NO_META = 19"
  by (simp add: NO_META_def)

lemma not_sentinel_title: "30 \<le> length t \<Longrightarrow> \<not> falsy t \<and> t \<noteq> NO_TITLE"
  using length_NO_TITLE by (auto simp: falsy_def)

lemma not_sentinel_meta: "120 \<le> length t \<Longrightarrow> \<not> falsy t \<and> t \<noteq> NO_META"
  using length_NO_META by (auto simp: falsy_def)

lemma page_sel [simp]:
  "length (title (page t m h i l)) = t" "length (metaDescription (page t m h i l)) = m"
  "length (headings (page t m h i l)) = h" "length (images (page t m h i l)) = i"
  "length (links (page t m h i l)) = l"
  by (simp_all add: page_def)

subsection \<open>Recommendations\<close>

lemma generateRecommendations_eq:
  "generateRecommendations pd =
     (if falsy (title pd) \<or> title pd = NO_TITLE \<or> length (title pd) < 50
      then [TITLE_REC] else []) @
     (if falsy (metaDescription pd) \<or> metaDescription pd = NO_META then [META_REC] else []) @
     (if length (headings pd) = 0 then [HEADING_REC] else []) @
     [IMAGES_REC, SPEED_REC, LINKING_REC, MOBILE_REC, HTTPS_REC, SITEMAP_REC]"
  by (simp add: generateRecommendations_def push_def Let_def)

lemma priorities_distinct: "HIGH \<noteq> MEDIUM" "HIGH \<noteq> LOW" "MEDIUM \<noteq> LOW"
  by (simp_all add: HIGH_def MEDIUM_def LOW_def lit_def)

lemma rec_priorities:
  "priority TITLE_REC = HIGH" "priority META_REC = HIGH" "priority HEADING_REC = HIGH"
  "priority IMAGES_REC = MEDIUM" "priority SPEED_REC = MEDIUM" "priority LINKING_REC = MEDIUM"
  "priority MOBILE_REC = MEDIUM" "priority HTTPS_REC = LOW" "priority SITEMAP_REC = LOW"
  by (simp_all add: TITLE_REC_def META_REC_def HEADING_REC_def IMAGES_REC_def SPEED_REC_def
      LINKING_REC_def MOBILE_REC_def HTTPS_REC_def SITEMAP_REC_def)

lemma recs_distinct:
  "distinct [TITLE_REC, META_REC, HEADING_REC, IMAGES_REC, SPEED_REC, LINKING_REC, MOBILE_REC,
     HTTPS_REC, SITEMAP_REC]"
  by (simp add: TITLE_REC_def META_REC_def HEADING_REC_def IMAGES_REC_def SPEED_REC_def
      LINKING_REC_def MOBILE_REC_def HTTPS_REC_def SITEMAP_REC_def lit_def)

text \<open>
  Claim C1, as the code has it. Whatever the features, the list returned by
  \<open>generateRecommendations\<close> ends with the universal entries images, page speed, internal
  linking, mobile, HTTPS and sitemap, in this order and with the priorities Medium, Medium,
  Medium, Medium, Low, Low. There are six of them. Every entry in front of them has priority
  High, which is neither Medium nor Low, so the universal entries are exactly the last six.
\<close>

theorem generateRecommendations_universal_suffix:
  "drop (length (generateRecommendations pd) - 6) (generateRecommendations pd) =
     [IMAGES_REC, SPEED_REC, LINKING_REC, MOBILE_REC, HTTPS_REC, SITEMAP_REC] \<and>
   map priority (take (length (generateRecommendations pd) - 6) (generateRecommendations pd)) =
     replicate (length (generateRecommendations pd) - 6) HIGH \<and>
   map priority [IMAGES_REC, SPEED_REC, LINKING_REC, MOBILE_REC, HTTPS_REC, SITEMAP_REC] =
     [MEDIUM, MEDIUM, MEDIUM, MEDIUM, LOW, LOW] \<and>
   HIGH \<notin> {MEDIUM, LOW}"
  using priorities_distinct by (simp add: generateRecommendations_eq rec_priorities)

text \<open>
  Claim C1 as stated asks for seven universal entries at the end of every list. For a page
  with a 55-character title, a description and three headings the whole list has six
  entries.
\<close>

theorem generateRecommendations_seven_universal_counterexample:
  "length (generateRecommendations (page 55 150 3 1 3)) = 6"
  using not_sentinel_title [of "title (page 55 150 3 1 3)"]
    not_sentinel_meta [of "metaDescription (page 55 150 3 1 3)"]
  by (simp add: generateRecommendations_eq)

text \<open>
  Claim C2, as the code has it. Each conditional recommendation has its own trigger: the
  title entry appears exactly when the title is empty, is the sentinel or is shorter than 50
  code units; the description entry exactly when the description is empty or the sentinel;
  the headings entry exactly when there is no heading. The conditional entries that appear
  stand in the order title, description, headings in front of the six universal entries, and
  each has priority High.
\<close>

theorem generateRecommendations_conditional_triggers:
  "(TITLE_REC \<in> set (generateRecommendations pd) \<longleftrightarrow>
      falsy (title pd) \<or> title pd = NO_TITLE \<or> length (title pd) < 50) \<and>
   (META_REC \<in> set (generateRecommendations pd) \<longleftrightarrow>
      falsy (metaDescription pd) \<or> metaDescription pd = NO_META) \<and>
   (HEADING_REC \<in> set (generateRecommendations pd) \<longleftrightarrow> length (headings pd) = 0) \<and>
   take (length (generateRecommendations pd) - 6) (generateRecommendations pd) =
     filter (\<lambda>r. r \<in> set (generateRecommendations pd)) [TITLE_REC, META_REC, HEADING_REC] \<and>
   drop (length (generateRecommendations pd) - 6) (generateRecommendations pd) =
     [IMAGES_REC, SPEED_REC, LINKING_REC, MOBILE_REC, HTTPS_REC, SITEMAP_REC] \<and>
   map priority [TITLE_REC, META_REC, HEADING_REC] = [HIGH, HIGH, HIGH]"
  using recs_distinct by (auto simp add: generateRecommendations_eq rec_priorities)

text \<open>
  Claim C2 as stated ties the title entry to the scoring deficiency of the title (missing,
  shorter than 30, longer than 60). A 40-character title triggers no penalty: the title block
  leaves the score alone and the page scores 100. The title recommendation is emitted all
  the same.
\<close>

theorem generateRecommendations_deficiency_counterexample:
  "TITLE_REC \<in> set (generateRecommendations (page 40 150 3 1 3)) \<and>
   title_evaluation (page 40 150 3 1 3) 100 = 100 \<and>
   calculateSeoScore (page 40 150 3 1 3) = 100"
  using not_sentinel_title [of "title (page 40 150 3 1 3)"]
    not_sentinel_meta [of "metaDescription (page 40 150 3 1 3)"]
  by (simp add: generateRecommendations_eq calculateSeoScore_def title_evaluation_def
      meta_description_evaluation_def headings_evaluation_def images_evaluation_def
      links_evaluation_def)

subsection \<open>Score and issues\<close>

lemma title_evaluation_shift: "title_evaluation pd s = s + title_evaluation pd 0"
  by (simp add: title_evaluation_def)

lemma meta_description_evaluation_shift:
  "meta_description_evaluation pd s = s + meta_description_evaluation pd 0"
  by (simp add: meta_description_evaluation_def)

lemma headings_evaluation_shift: "headings_evaluation pd s = s + headings_evaluation pd 0"
  by (simp add: headings_evaluation_def)

lemma images_evaluation_shift: "images_evaluation pd s = s + images_evaluation pd 0"
  by (simp add: images_evaluation_def)

lemma links_evaluation_shift: "links_evaluation pd s = s + links_evaluation pd 0"
  by (simp add: links_evaluation_def)

lemma title_evaluation_range: "title_evaluation pd 0 \<in> {-20, -10, 0}"
  by (simp add: title_evaluation_def)

lemma meta_description_evaluation_range: "meta_description_evaluation pd 0 \<in> {-20, -10, 0}"
  by (simp add: meta_description_evaluation_def)

lemma headings_evaluation_range: "headings_evaluation pd 0 \<in> {-15, -5, 0}"
  by (simp add: headings_evaluation_def)

lemma images_evaluation_range: "images_evaluation pd 0 \<in> {-10, 0}"
  by (simp add: images_evaluation_def)

lemma links_evaluation_range: "links_evaluation pd 0 \<in> {-10, 0}"
  by (simp add: links_evaluation_def)

text \<open>The penalties add up to at most 75, so the clamp to [0, 100] never changes the score.\<close>

lemma calculateSeoScore_sum:
  "calculateSeoScore pd =
     100 + title_evaluation pd 0 + meta_description_evaluation pd 0 +
     headings_evaluation pd 0 + images_evaluation pd 0 + links_evaluation pd 0"
proof -
  let ?t = "title_evaluation pd 0" and ?m = "meta_description_evaluation pd 0"
  let ?h = "headings_evaluation pd 0" and ?i = "images_evaluation pd 0"
  let ?l = "links_evaluation pd 0"
  have unfold: "calculateSeoScore pd = max 0 (min 100 (100 + ?t + ?m + ?h + ?i + ?l))"
    unfolding calculateSeoScore_def Let_def
    by (subst links_evaluation_shift, subst images_evaluation_shift,
        subst headings_evaluation_shift, subst meta_description_evaluation_shift,
        subst title_evaluation_shift) simp
  have "-20 \<le> ?t \<and> ?t \<le> 0" using title_evaluation_range [of pd] by auto
  moreover have "-20 \<le> ?m \<and> ?m \<le> 0" using meta_description_evaluation_range [of pd] by auto
  moreover have "-15 \<le> ?h \<and> ?h \<le> 0" using headings_evaluation_range [of pd] by auto
  moreover have "-10 \<le> ?i \<and> ?i \<le> 0" using images_evaluation_range [of pd] by auto
  moreover have "-10 \<le> ?l \<and> ?l \<le> 0" using links_evaluation_range [of pd] by auto
  ultimately show ?thesis unfolding unfold by linarith
qed

lemma calculateSeoScore_bounds: "25 \<le> calculateSeoScore pd \<and> calculateSeoScore pd \<le> 100"
  using title_evaluation_range [of pd] meta_description_evaluation_range [of pd]
    headings_evaluation_range [of pd] images_evaluation_range [of pd]
    links_evaluation_range [of pd]
  unfolding calculateSeoScore_sum by auto

lemma evaluation_other_field:
  "meta_description_evaluation (p\<lparr>title := x\<rparr>) u = meta_description_evaluation p u"
  "headings_evaluation (p\<lparr>title := x\<rparr>) u = headings_evaluation p u"
  "images_evaluation (p\<lparr>title := x\<rparr>) u = images_evaluation p u"
  "links_evaluation (p\<lparr>title := x\<rparr>) u = links_evaluation p u"
  "title_evaluation (p\<lparr>metaDescription := x\<rparr>) u = title_evaluation p u"
  "headings_evaluation (p\<lparr>metaDescription := x\<rparr>) u = headings_evaluation p u"
  "images_evaluation (p\<lparr>metaDescription := x\<rparr>) u = images_evaluation p u"
  "links_evaluation (p\<lparr>metaDescription := x\<rparr>) u = links_evaluation p u"
  by (simp_all add: title_evaluation_def meta_description_evaluation_def
      headings_evaluation_def images_evaluation_def links_evaluation_def)

lemma title_evaluation_long:
  "30 \<le> length x \<Longrightarrow>
   title_evaluation (p\<lparr>title := x\<rparr>) u = (if length x > 60 then u - 10 else u)"
  using not_sentinel_title [of x] by (simp add: title_evaluation_def)

lemma meta_description_evaluation_long:
  "120 \<le> length x \<Longrightarrow>
   meta_description_evaluation (p\<lparr>metaDescription := x\<rparr>) u =
     (if length x > 160 then u - 10 else u)"
  using not_sentinel_meta [of x] by (simp add: meta_description_evaluation_def)

text \<open>
  Claim C7. A title of exactly 60 code units leaves the score as it is and one of 61 costs
  10 points; a meta description of exactly 160 code units leaves the score as it is and one
  of 161 costs 10 points. A string of that length is neither empty nor a sentinel, so it is
  present. The same holds for the final score: with all other features equal, the page with
  the 60-unit title scores 10 more than the page with the 61-unit title, and likewise for
  descriptions of 160 and 161 units.
\<close>

theorem upper_length_boundaries:
  "(length (title pd) = 60 \<longrightarrow> title_evaluation pd s = s) \<and>
   (length (title pd) = 61 \<longrightarrow> title_evaluation pd s = s - 10) \<and>
   (length (metaDescription pd) = 160 \<longrightarrow> meta_description_evaluation pd s = s) \<and>
   (length (metaDescription pd) = 161 \<longrightarrow> meta_description_evaluation pd s = s - 10) \<and>
   (length t60 = 60 \<and> length t61 = 61 \<longrightarrow>
      calculateSeoScore (pd\<lparr>title := t60\<rparr>) = calculateSeoScore (pd\<lparr>title := t61\<rparr>) + 10) \<and>
   (length m160 = 160 \<and> length m161 = 161 \<longrightarrow>
      calculateSeoScore (pd\<lparr>metaDescription := m160\<rparr>) =
      calculateSeoScore (pd\<lparr>metaDescription := m161\<rparr>) + 10)"
proof -
  note t = title_evaluation_long and m = meta_description_evaluation_long
  have c1: "length (title pd) = 60 \<longrightarrow> title_evaluation pd s = s"
    using t [of "title pd" pd s] by simp
  have c2: "length (title pd) = 61 \<longrightarrow> title_evaluation pd s = s - 10"
    using t [of "title pd" pd s] by simp
  have c3: "length (metaDescription pd) = 160 \<longrightarrow> meta_description_evaluation pd s = s"
    using m [of "metaDescription pd" pd s] by simp
  have c4: "length (metaDescription pd) = 161 \<longrightarrow> meta_description_evaluation pd s = s - 10"
    using m [of "metaDescription pd" pd s] by simp
  have c5: "length t60 = 60 \<and> length t61 = 61 \<longrightarrow>
      calculateSeoScore (pd\<lparr>title := t60\<rparr>) = calculateSeoScore (pd\<lparr>title := t61\<rparr>) + 10"
    using t [of t60 pd 0] t [of t61 pd 0]
    by (simp add: calculateSeoScore_sum evaluation_other_field)
  have c6: "length m160 = 160 \<and> length m161 = 161 \<longrightarrow>
      calculateSeoScore (pd\<lparr>metaDescription := m160\<rparr>) =
      calculateSeoScore (pd\<lparr>metaDescription := m161\<rparr>) + 10"
    using m [of m160 pd 0] m [of m161 pd 0]
    by (simp add: calculateSeoScore_sum evaluation_other_field)
  from c1 c2 c3 c4 c5 c6 show ?thesis by blast
qed

theorem upper_length_boundaries_witness:
  "title_evaluation (page 60 160 3 1 3) 100 = 100 \<and>
   title_evaluation (page 61 161 3 1 3) 100 = 90 \<and>
   meta_description_evaluation (page 60 160 3 1 3) 100 = 100 \<and>
   meta_description_evaluation (page 61 161 3 1 3) 100 = 90 \<and>
   calculateSeoScore ((page 0 0 0 0 0)\<lparr>title := replicate 60 0x61\<rparr>) =
     calculateSeoScore ((page 0 0 0 0 0)\<lparr>title := replicate 61 0x61\<rparr>) + 10 \<and>
   calculateSeoScore ((page 0 0 0 0 0)\<lparr>metaDescription := replicate 160 0x61\<rparr>) =
     calculateSeoScore ((page 0 0 0 0 0)\<lparr>metaDescription := replicate 161 0x61\<rparr>) + 10"
  using upper_length_boundaries [of "page 60 160 3 1 3" 100 "replicate 60 0x61"
      "replicate 61 0x61" "replicate 160 0x61" "replicate 161 0x61"]
    upper_length_boundaries [of "page 61 161 3 1 3" 100 "replicate 60 0x61"
      "replicate 61 0x61" "replicate 160 0x61" "replicate 161 0x61"]
    upper_length_boundaries [of "page 0 0 0 0 0" 100 "replicate 60 0x61"
      "replicate 61 0x61" "replicate 160 0x61" "replicate 161 0x61"]
  by simp

lemmas issue_defs = push_def NO_IMAGES_ISSUE_def CRITICAL_def WARNING_def INFO_def

lemma title_issues_block:
  "title_issues pd xs = xs @ title_issues pd []"
  "title_issues pd [] = [] \<longleftrightarrow> title_evaluation pd 0 = 0"
  "length (title_issues pd []) \<le> 1"
  "NO_IMAGES_ISSUE \<notin> set (title_issues pd [])"
  by (simp_all add: title_issues_def title_evaluation_def issue_defs)

lemma meta_description_issues_block:
  "meta_description_issues pd xs = xs @ meta_description_issues pd []"
  "meta_description_issues pd [] = [] \<longleftrightarrow> meta_description_evaluation pd 0 = 0"
  "length (meta_description_issues pd []) \<le> 1"
  "NO_IMAGES_ISSUE \<notin> set (meta_description_issues pd [])"
  by (simp_all add: meta_description_issues_def meta_description_evaluation_def issue_defs)

lemma heading_issues_block:
  "heading_issues pd xs = xs @ heading_issues pd []"
  "heading_issues pd [] = [] \<longleftrightarrow> headings_evaluation pd 0 = 0"
  "length (heading_issues pd []) \<le> 1"
  "NO_IMAGES_ISSUE \<notin> set (heading_issues pd [])"
  by (simp_all add: heading_issues_def headings_evaluation_def issue_defs)

lemma image_issues_block:
  "image_issues pd xs = xs @ image_issues pd []"
  "image_issues pd [] = [] \<or> image_issues pd [] = [NO_IMAGES_ISSUE] \<longleftrightarrow>
     images_evaluation pd 0 = 0"
  "length (image_issues pd []) \<le> 1"
  by (simp_all add: image_issues_def images_evaluation_def issue_defs)

lemma link_issues_block:
  "link_issues pd xs = xs @ link_issues pd []"
  "link_issues pd [] = [] \<longleftrightarrow> links_evaluation pd 0 = 0"
  "length (link_issues pd []) \<le> 1"
  "NO_IMAGES_ISSUE \<notin> set (link_issues pd [])"
  by (simp_all add: link_issues_def links_evaluation_def issue_defs)

lemma findSeoIssues_append:
  "findSeoIssues pd =
     title_issues pd [] @ meta_description_issues pd [] @ heading_issues pd [] @
     image_issues pd [] @ link_issues pd []"
  unfolding findSeoIssues_def Let_def
  by (subst link_issues_block(1), subst image_issues_block(1), subst heading_issues_block(1),
      subst meta_description_issues_block(1)) simp

lemma score_100_iff:
  "calculateSeoScore pd = 100 \<longleftrightarrow>
     title_evaluation pd 0 = 0 \<and> meta_description_evaluation pd 0 = 0 \<and>
     headings_evaluation pd 0 = 0 \<and> images_evaluation pd 0 = 0 \<and> links_evaluation pd 0 = 0"
  using title_evaluation_range [of pd] meta_description_evaluation_range [of pd]
    headings_evaluation_range [of pd] images_evaluation_range [of pd]
    links_evaluation_range [of pd]
  unfolding calculateSeoScore_sum by auto

lemma singleton_append_cases:
  assumes "a @ b @ c @ d @ e = [x]" "x \<notin> set a" "x \<notin> set b" "x \<notin> set c" "x \<notin> set e"
  shows "a = [] \<and> b = [] \<and> c = [] \<and> d = [x] \<and> e = []"
proof -
  have "x \<in> set (a @ b @ c @ d @ e)" using assms(1) by simp
  then have "x \<in> set d" using assms(2-5) by auto
  then have "d \<noteq> []" by auto
  moreover have "length a + length b + length c + length d + length e = 1"
    using arg_cong [OF assms(1), of length] by simp
  ultimately have "a = [] \<and> b = [] \<and> c = [] \<and> e = []"
    by (cases d) auto
  then show ?thesis using assms(1) by simp
qed

lemma issues_clean_iff:
  "findSeoIssues pd = [] \<or> findSeoIssues pd = [NO_IMAGES_ISSUE] \<longleftrightarrow>
     title_evaluation pd 0 = 0 \<and> meta_description_evaluation pd 0 = 0 \<and>
     headings_evaluation pd 0 = 0 \<and> images_evaluation pd 0 = 0 \<and> links_evaluation pd 0 = 0"
  (is "?L \<longleftrightarrow> ?R")
proof
  note blocks = title_issues_block(2) [of pd] meta_description_issues_block(2) [of pd]
    heading_issues_block(2) [of pd] image_issues_block(2) [of pd] link_issues_block(2) [of pd]
  assume ?L
  then show ?R
  proof
    assume "findSeoIssues pd = []"
    then show ?R
      using blocks by (simp add: findSeoIssues_append)
  next
    assume "findSeoIssues pd = [NO_IMAGES_ISSUE]"
    then have "title_issues pd [] = [] \<and> meta_description_issues pd [] = [] \<and>
        heading_issues pd [] = [] \<and> image_issues pd [] = [NO_IMAGES_ISSUE] \<and>
        link_issues pd [] = []"
      unfolding findSeoIssues_append
      by (rule singleton_append_cases)
        (rule title_issues_block(4) meta_description_issues_block(4) heading_issues_block(4)
          link_issues_block(4))+
    then show ?R
      using blocks by simp
  qed
next
  note blocks = title_issues_block(2) [of pd] meta_description_issues_block(2) [of pd]
    heading_issues_block(2) [of pd] image_issues_block(2) [of pd] link_issues_block(2) [of pd]
  assume ?R
  then show ?L
    using blocks by (auto simp add: findSeoIssues_append)
qed

lemma title_branches:
  "(falsy (title pd) \<or> title pd = NO_TITLE \<longleftrightarrow>
      title_issues pd xs = xs @ [CRITICAL @ lit '' Missing title tag - critical for SEO''] \<and>
      title_evaluation pd s = s - 20)"
  "(\<not> falsy (title pd) \<and> title pd \<noteq> NO_TITLE \<and> length (title pd) < 30 \<longleftrightarrow>
      title_issues pd xs = xs @ [WARNING @ lit '' Title tag is too short ('' @
        number_toString (length (title pd)) @
        lit '' characters) - should be 50-60 characters''] \<and>
      title_evaluation pd s = s - 10)"
  "(60 < length (title pd) \<longleftrightarrow>
      title_issues pd xs = xs @ [WARNING @ lit '' Title tag is too long ('' @
        number_toString (length (title pd)) @
        lit '' characters) - may be truncated in search results''] \<and>
      title_evaluation pd s = s - 10)"
  by (auto simp add: title_issues_def title_evaluation_def push_def CRITICAL_def WARNING_def
      lit_def falsy_def length_NO_TITLE)

lemma meta_branches:
  "(falsy (metaDescription pd) \<or> metaDescription pd = NO_META \<longleftrightarrow>
      meta_description_issues pd xs = xs @
        [CRITICAL @ lit '' Missing meta description - important for click-through rates''] \<and>
      meta_description_evaluation pd s = s - 20)"
  "(\<not> falsy (metaDescription pd) \<and> metaDescription pd \<noteq> NO_META \<and>
      length (metaDescription pd) < 120 \<longleftrightarrow>
      meta_description_issues pd xs = xs @ [WARNING @ lit '' Meta description is too short ('' @
        number_toString (length (metaDescription pd)) @
        lit '' characters) - should be 150-160 characters''] \<and>
      meta_description_evaluation pd s = s - 10)"
  "(160 < length (metaDescription pd) \<longleftrightarrow>
      meta_description_issues pd xs = xs @ [WARNING @ lit '' Meta description is too long ('' @
        number_toString (length (metaDescription pd)) @
        lit '' characters) - will be truncated''] \<and>
      meta_description_evaluation pd s = s - 10)"
  by (auto simp add: meta_description_issues_def meta_description_evaluation_def push_def
      CRITICAL_def WARNING_def lit_def falsy_def length_NO_META)

lemma heading_branches:
  "(length (headings pd) = 0 \<longleftrightarrow>
      heading_issues pd xs = xs @
        [CRITICAL @ lit '' No heading tags (H1-H6) found - critical for content structure''] \<and>
      headings_evaluation pd s = s - 15)"
  "(0 < length (headings pd) \<and> length (headings pd) < 3 \<longleftrightarrow>
      heading_issues pd xs = xs @ [WARNING @
        lit '' Low number of headings - consider adding more subheadings for better structure''] \<and>
      headings_evaluation pd s = s - 5)"
  by (auto simp add: heading_issues_def headings_evaluation_def push_def
      CRITICAL_def WARNING_def lit_def)

lemma image_branches:
  "(length (images pd) = 0 \<longleftrightarrow>
      image_issues pd xs = xs @
        [INFO @ lit '' No images found - visual content can improve engagement''] \<and>
      images_evaluation pd s = s)"
  "(20 < length (images pd) \<longleftrightarrow>
      image_issues pd xs = xs @ [WARNING @ lit '' High number of images ('' @
        number_toString (length (images pd)) @
        lit '') - ensure optimization to prevent slow load times''] \<and>
      images_evaluation pd s = s - 10)"
  by (auto simp add: image_issues_def images_evaluation_def push_def NO_IMAGES_ISSUE_def
      INFO_def WARNING_def lit_def)

lemma link_branches:
  "(length (links pd) < 3 \<longleftrightarrow>
      link_issues pd xs = xs @ [WARNING @
        lit '' Low number of internal links - improve site structure with more linking''] \<and>
      links_evaluation pd s = s - 10)"
  by (auto simp add: link_issues_def links_evaluation_def push_def WARNING_def lit_def)


lemma in_range_branches:
  "(\<not> falsy (title pd) \<and> title pd \<noteq> NO_TITLE \<and> 30 \<le> length (title pd) \<and>
      length (title pd) \<le> 60 \<longleftrightarrow>
      title_issues pd xs = xs \<and> title_evaluation pd s = s)"
  "(\<not> falsy (metaDescription pd) \<and> metaDescription pd \<noteq> NO_META \<and>
      120 \<le> length (metaDescription pd) \<and> length (metaDescription pd) \<le> 160 \<longleftrightarrow>
      meta_description_issues pd xs = xs \<and> meta_description_evaluation pd s = s)"
  "(3 \<le> length (headings pd) \<longleftrightarrow>
      heading_issues pd xs = xs \<and> headings_evaluation pd s = s)"
  "(0 < length (images pd) \<and> length (images pd) \<le> 20 \<longleftrightarrow>
      image_issues pd xs = xs \<and> images_evaluation pd s = s)"
  "(3 \<le> length (links pd) \<longleftrightarrow> link_issues pd xs = xs \<and> links_evaluation pd s = s)"
  by (auto simp add: title_issues_def title_evaluation_def meta_description_issues_def
      meta_description_evaluation_def heading_issues_def headings_evaluation_def
      image_issues_def images_evaluation_def link_issues_def links_evaluation_def push_def)

lemma number_toString_samples:
  "number_toString 5 = lit ''5''" "number_toString 25 = lit ''25''"
  "number_toString 200 = lit ''200''"
  by (simp_all add: number_toString.simps digit_def lit_def)


text \<open>
  Claim C10. The score is 100 exactly when \<open>findSeoIssues\<close> returns no issue or only the
  informational issue about a page without images. Every penalty branch of the score is
  mirrored by exactly one issue under the same threshold condition, branch by branch: a
  missing title (empty or the sentinel) is the critical issue "Missing title tag" and 20
  points, a title shorter than 30 the warning "too short" with its length and 10 points, a
  title longer than 60 the warning "too long" with its length and 10 points, and a title of
  30 to 60 neither; the description has the same three branches at 120 and 160; no heading is
  the critical issue "No heading tags" and 15 points, one or two headings the warning "Low
  number of headings" and 5 points; more than 20 images is the warning "High number of
  images" with their number and 10 points, while no image is the informational issue and no
  penalty; fewer than 3 links is the warning "Low number of internal links" and 10 points.
  Each condition holds exactly when its block appends that very text and subtracts that very
  penalty, so a block changes the score exactly when its counterpart pushes an issue (for
  images: an issue other than the informational one), and no block pushes more than one
  issue. The penalties sum to at most 75, so the score is never below 25 and never above 100.
\<close>

theorem score_100_iff_no_issue:
  "(calculateSeoScore pd = 100 \<longleftrightarrow>
      findSeoIssues pd = [] \<or> findSeoIssues pd = [NO_IMAGES_ISSUE]) \<and>
   25 \<le> calculateSeoScore pd \<and> calculateSeoScore pd \<le> 100 \<and>
   (title_issues pd xs = xs \<longleftrightarrow> title_evaluation pd s = s) \<and>
   (meta_description_issues pd xs = xs \<longleftrightarrow> meta_description_evaluation pd s = s) \<and>
   (heading_issues pd xs = xs \<longleftrightarrow> headings_evaluation pd s = s) \<and>
   (image_issues pd xs = xs \<or> image_issues pd xs = xs @ [NO_IMAGES_ISSUE] \<longleftrightarrow>
      images_evaluation pd s = s) \<and>
   (link_issues pd xs = xs \<longleftrightarrow> links_evaluation pd s = s) \<and>
   length (title_issues pd xs) \<le> length xs + 1 \<and>
   length (meta_description_issues pd xs) \<le> length xs + 1 \<and>
   length (heading_issues pd xs) \<le> length xs + 1 \<and>
   length (image_issues pd xs) \<le> length xs + 1 \<and>
   length (link_issues pd xs) \<le> length xs + 1 \<and>
   (falsy (title pd) \<or> title pd = NO_TITLE \<longleftrightarrow>
      title_issues pd xs = xs @ [CRITICAL @ lit '' Missing title tag - critical for SEO''] \<and>
      title_evaluation pd s = s - 20) \<and>
   (\<not> falsy (title pd) \<and> title pd \<noteq> NO_TITLE \<and> length (title pd) < 30 \<longleftrightarrow>
      title_issues pd xs = xs @ [WARNING @ lit '' Title tag is too short ('' @
        number_toString (length (title pd)) @
        lit '' characters) - should be 50-60 characters''] \<and>
      title_evaluation pd s = s - 10) \<and>
   (60 < length (title pd) \<longleftrightarrow>
      title_issues pd xs = xs @ [WARNING @ lit '' Title tag is too long ('' @
        number_toString (length (title pd)) @
        lit '' characters) - may be truncated in search results''] \<and>
      title_evaluation pd s = s - 10) \<and>
   (\<not> falsy (title pd) \<and> title pd \<noteq> NO_TITLE \<and> 30 \<le> length (title pd) \<and>
      length (title pd) \<le> 60 \<longleftrightarrow>
      title_issues pd xs = xs \<and> title_evaluation pd s = s) \<and>
   (falsy (metaDescription pd) \<or> metaDescription pd = NO_META \<longleftrightarrow>
      meta_description_issues pd xs = xs @
        [CRITICAL @ lit '' Missing meta description - important for click-through rates''] \<and>
      meta_description_evaluation pd s = s - 20) \<and>
   (\<not> falsy (metaDescription pd) \<and> metaDescription pd \<noteq> NO_META \<and>
      length (metaDescription pd) < 120 \<longleftrightarrow>
      meta_description_issues pd xs = xs @ [WARNING @ lit '' Meta description is too short ('' @
        number_toString (length (metaDescription pd)) @
        lit '' characters) - should be 150-160 characters''] \<and>
      meta_description_evaluation pd s = s - 10) \<and>
   (160 < length (metaDescription pd) \<longleftrightarrow>
      meta_description_issues pd xs = xs @ [WARNING @ lit '' Meta description is too long ('' @
        number_toString (length (metaDescription pd)) @
        lit '' characters) - will be truncated''] \<and>
      meta_description_evaluation pd s = s - 10) \<and>
   (\<not> falsy (metaDescription pd) \<and> metaDescription pd \<noteq> NO_META \<and>
      120 \<le> length (metaDescription pd) \<and> length (metaDescription pd) \<le> 160 \<longleftrightarrow>
      meta_description_issues pd xs = xs \<and> meta_description_evaluation pd s = s) \<and>
   (length (headings pd) = 0 \<longleftrightarrow>
      heading_issues pd xs = xs @
        [CRITICAL @ lit '' No heading tags (H1-H6) found - critical for content structure''] \<and>
      headings_evaluation pd s = s - 15) \<and>
   (0 < length (headings pd) \<and> length (headings pd) < 3 \<longleftrightarrow>
      heading_issues pd xs = xs @ [WARNING @
        lit '' Low number of headings - consider adding more subheadings for better structure''] \<and>
      headings_evaluation pd s = s - 5) \<and>
   (3 \<le> length (headings pd) \<longleftrightarrow>
      heading_issues pd xs = xs \<and> headings_evaluation pd s = s) \<and>
   (length (images pd) = 0 \<longleftrightarrow>
      image_issues pd xs = xs @
        [INFO @ lit '' No images found - visual content can improve engagement''] \<and>
      images_evaluation pd s = s) \<and>
   (20 < length (images pd) \<longleftrightarrow>
      image_issues pd xs = xs @ [WARNING @ lit '' High number of images ('' @
        number_toString (length (images pd)) @
        lit '') - ensure optimization to prevent slow load times''] \<and>
      images_evaluation pd s = s - 10) \<and>
   (0 < length (images pd) \<and> length (images pd) \<le> 20 \<longleftrightarrow>
      image_issues pd xs = xs \<and> images_evaluation pd s = s) \<and>
   (length (links pd) < 3 \<longleftrightarrow>
      link_issues pd xs = xs @ [WARNING @
        lit '' Low number of internal links - improve site structure with more linking''] \<and>
      links_evaluation pd s = s - 10) \<and>
   (3 \<le> length (links pd) \<longleftrightarrow> link_issues pd xs = xs \<and> links_evaluation pd s = s)"
proof -
  have t: "title_issues pd xs = xs \<longleftrightarrow> title_evaluation pd s = s"
    by (subst title_issues_block(1), subst title_evaluation_shift)
      (simp add: title_issues_block(2))
  have m: "meta_description_issues pd xs = xs \<longleftrightarrow> meta_description_evaluation pd s = s"
    by (subst meta_description_issues_block(1), subst meta_description_evaluation_shift)
      (simp add: meta_description_issues_block(2))
  have h: "heading_issues pd xs = xs \<longleftrightarrow> headings_evaluation pd s = s"
    by (subst heading_issues_block(1), subst headings_evaluation_shift)
      (simp add: heading_issues_block(2))
  have i: "image_issues pd xs = xs \<or> image_issues pd xs = xs @ [NO_IMAGES_ISSUE] \<longleftrightarrow>
      images_evaluation pd s = s"
    by (subst image_issues_block(1), subst (2) image_issues_block(1),
        subst images_evaluation_shift) (simp add: image_issues_block(2))
  have l: "link_issues pd xs = xs \<longleftrightarrow> links_evaluation pd s = s"
    by (subst link_issues_block(1), subst links_evaluation_shift)
      (simp add: link_issues_block(2))
  have len: "length (title_issues pd xs) \<le> length xs + 1"
    "length (meta_description_issues pd xs) \<le> length xs + 1"
    "length (heading_issues pd xs) \<le> length xs + 1"
    "length (image_issues pd xs) \<le> length xs + 1"
    "length (link_issues pd xs) \<le> length xs + 1"
    using title_issues_block(3) [of pd] meta_description_issues_block(3) [of pd]
      heading_issues_block(3) [of pd] image_issues_block(3) [of pd] link_issues_block(3) [of pd]
    by (subst title_issues_block(1) meta_description_issues_block(1) heading_issues_block(1)
        image_issues_block(1) link_issues_block(1), simp)+
  have whole: "(calculateSeoScore pd = 100 \<longleftrightarrow>
      findSeoIssues pd = [] \<or> findSeoIssues pd = [NO_IMAGES_ISSUE]) \<and>
      25 \<le> calculateSeoScore pd \<and> calculateSeoScore pd \<le> 100"
    using calculateSeoScore_bounds [of pd] score_100_iff [of pd] issues_clean_iff [of pd]
    by simp
  note blocks = t m h i l
  note branches = title_branches [of pd xs s] meta_branches [of pd xs s]
    heading_branches [of pd xs s] image_branches [of pd xs s] link_branches [of pd xs s]
    in_range_branches [of pd xs s]
  show ?thesis
    by (intro conjI whole [THEN conjunct1] whole [THEN conjunct2, THEN conjunct1]
        whole [THEN conjunct2, THEN conjunct2] blocks len branches)
qed

text \<open>
  A page with a title of 5 units, a description of 200, one heading, 25 images and no link:
  every block takes a penalty branch, and pushes the issue of that branch with the number
  in its text.
\<close>

theorem score_100_iff_no_issue_witness:
  "title_issues (page 5 200 1 25 0) [] =
     [WARNING @ lit '' Title tag is too short (5 characters) - should be 50-60 characters''] \<and>
   title_evaluation (page 5 200 1 25 0) 100 = 90 \<and>
   meta_description_issues (page 5 200 1 25 0) [] =
     [WARNING @ lit '' Meta description is too long (200 characters) - will be truncated''] \<and>
   meta_description_evaluation (page 5 200 1 25 0) 100 = 90 \<and>
   heading_issues (page 5 200 1 25 0) [] = [WARNING @
     lit '' Low number of headings - consider adding more subheadings for better structure''] \<and>
   headings_evaluation (page 5 200 1 25 0) 100 = 95 \<and>
   image_issues (page 5 200 1 25 0) [] =
     [WARNING @ lit '' High number of images (25) - ensure optimization to prevent slow load times''] \<and>
   images_evaluation (page 5 200 1 25 0) 100 = 90 \<and>
   link_issues (page 5 200 1 25 0) [] = [WARNING @
     lit '' Low number of internal links - improve site structure with more linking''] \<and>
   links_evaluation (page 5 200 1 25 0) 100 = 90"
proof -
  have fields: "title (page 5 200 1 25 0) \<noteq> []" "title (page 5 200 1 25 0) \<noteq> NO_TITLE"
    "length (title (page 5 200 1 25 0)) = 5" "length (metaDescription (page 5 200 1 25 0)) = 200"
    "length (headings (page 5 200 1 25 0)) = 1" "length (images (page 5 200 1 25 0)) = 25"
    "length (links (page 5 200 1 25 0)) = 0"
    using length_NO_TITLE by (auto simp add: page_def dest: arg_cong [where f = length])
  show ?thesis
    using score_100_iff_no_issue [of "page 5 200 1 25 0" "[]" 100] fields
    by (simp add: falsy_def number_toString_samples lit_def)
qed


section \<open>Properties of the extractor\<close>

lemma run_lit_i:
  "run (lit_i w @ r) s k cap =
     (if starts_with_ci w s then run r (drop (length w) s) (k + length w) cap else None)"
proof (induction w s arbitrary: k rule: starts_with_ci.induct)
  case (1 s)
  then show ?case by (simp add: lit_i_def)
next
  case (2 c cs)
  then show ?case by (simp add: lit_i_def chr_i_def)
next
  case (3 c cs x xs)
  then show ?case by (simp add: lit_i_def chr_i_def)
qed

lemma run_lit_i_end:
  "run (lit_i w) s k cap = (if starts_with_ci w s then Some (k + length w, cap) else None)"
  using run_lit_i [of w "[]" s k cap] by simp

lemma run_few_title:
  "run (Few dot # GroupClose # lit_i ''</title>'') s k cap =
     (case title_text s of
        Some t \<Rightarrow> Some (k + length t + 8, fst cap, k + length t)
      | None \<Rightarrow> None)"
proof (induction s arbitrary: k)
  case Nil
  then show ?case by (simp add: run_lit_i_end)
next
  case (Cons x xs)
  show ?case
  proof (cases "starts_with_ci ''</title>'' (x # xs)")
    case True
    then show ?thesis by (simp add: run_lit_i_end del: starts_with_ci.simps)
  next
    case False
    then show ?thesis
      by (simp add: run_lit_i_end Cons.IH del: starts_with_ci.simps split: option.split)
  qed
qed

lemma title_text_prefix: "title_text s = Some t \<Longrightarrow> take (length t) s = t"
proof (induction s arbitrary: t)
  case Nil
  then show ?case by simp
next
  case (Cons x xs)
  then show ?case by (auto split: if_splits simp del: starts_with_ci.simps)
qed

lemma match_at_TITLE_RE:
  "match_at TITLE_RE s =
     (if starts_with_ci ''<title>'' s then
        (case title_text (drop 7 s) of
           Some t \<Rightarrow> Some \<lparr>whole = take (length t + 15) s, group1 = t\<rparr>
         | None \<Rightarrow> None)
      else None)"
proof -
  have re: "TITLE_RE = lit_i ''<title>'' @ (GroupOpen # Few dot # GroupClose # lit_i ''</title>'')"
    by (simp add: TITLE_RE_def)
  have len: "length ''<title>'' = 7"
    by simp
  have run: "run TITLE_RE s 0 (0, 0) =
      (if starts_with_ci ''<title>'' s then
         (case title_text (drop 7 s) of
            Some t \<Rightarrow> Some (length t + 15, 7, length t + 7)
          | None \<Rightarrow> None)
       else None)"
    unfolding re run_lit_i len
    by (simp add: run_few_title split: option.split del: starts_with_ci.simps)
  show ?thesis
    unfolding match_at_def run
    by (simp add: title_text_prefix split: option.split del: starts_with_ci.simps)
qed

lemma exec_TITLE_RE: "map_option group1 (exec TITLE_RE s) = first_title s"
proof (induction s)
  case Nil
  then show ?case by (simp add: match_at_TITLE_RE)
next
  case (Cons x xs)
  then show ?case
    by (simp add: match_at_TITLE_RE split: option.split del: starts_with_ci.simps)
qed

lemma extractTitle_first_title:
  "extractTitle s = (case first_title s of None \<Rightarrow> NO_TITLE | Some t \<Rightarrow> t)"
  using exec_TITLE_RE [of s] by (auto simp: extractTitle_def split: option.splits)

lemma match_at_absent: "\<not> starts_with_ci w s \<Longrightarrow> match_at (lit_i w @ r) s = None"
  by (simp add: match_at_def run_lit_i)

lemma exec_absent: "\<not> occurs_ci w s \<Longrightarrow> exec (lit_i w @ r) s = None"
  by (induction s) (simp_all add: match_at_absent)

lemma scan_absent: "\<not> occurs_ci w s \<Longrightarrow> scan (lit_i w @ r) n s = []"
proof (induction s arbitrary: n)
  case Nil
  then show ?case by (cases n) (simp_all add: match_at_absent)
next
  case (Cons x xs)
  then show ?case by (cases n) (simp_all add: match_at_absent)
qed

lemma extractors_absent:
  "\<not> occurs_ci ''<title>'' s \<Longrightarrow> extractTitle s = NO_TITLE"
  "\<not> occurs_ci ''<meta'' s \<Longrightarrow> extractMetaDescription s = NO_META"
  "\<not> occurs_ci ''<h'' s \<Longrightarrow> extractHeadings s = []"
  "\<not> occurs_ci ''<img'' s \<Longrightarrow> extractImages s = []"
  "\<not> occurs_ci ''<a'' s \<Longrightarrow> extractLinks s = []"
  by (simp_all add: extractTitle_def extractMetaDescription_def extractHeadings_def
      extractImages_def extractLinks_def TITLE_RE_def META_RE_def HEADING_RE_def IMG_RE_def
      LINK_RE_def exec_absent scan_absent del: occurs_ci.simps)

lemma evaluation_ranges:
  "title_evaluation pd s \<in> {s - 20, s - 10, s}"
  "meta_description_evaluation pd s \<in> {s - 20, s - 10, s}"
  "headings_evaluation pd s \<in> {s - 15, s - 5, s}"
  by (simp_all add: title_evaluation_def meta_description_evaluation_def headings_evaluation_def)

text \<open>
  Claim C6. When the markup holds no \<open><title>\<close> tag, in any case of letters, the extracted
  title is the sentinel "No title found". The sentinel has 14 code units, fewer than 30, and
  still the title block subtracts exactly 20: the final score is 20 below the score of the
  same features with a title of 30 to 60 code units, which carries no penalty. For every
  features value the title block subtracts 20, 10 or nothing, never two penalties at once,
  and likewise the description block; the headings block subtracts 15, 5 or nothing.
\<close>

theorem no_title_exactly_missing_penalty:
  "\<not> occurs_ci ''<title>'' markup \<Longrightarrow>
   extractTitle markup = NO_TITLE \<and>
   length NO_TITLE < 30 \<and>
   title_evaluation (pageData_of markup) s = s - 20 \<and>
   (30 \<le> length t \<and> length t \<le> 60 \<longrightarrow>
      calculateSeoScore (pageData_of markup) =
      calculateSeoScore ((pageData_of markup)\<lparr>title := t\<rparr>) - 20) \<and>
   title_evaluation pd s \<in> {s - 20, s - 10, s} \<and>
   meta_description_evaluation pd s \<in> {s - 20, s - 10, s} \<and>
   headings_evaluation pd s \<in> {s - 15, s - 5, s}"
proof -
  assume absent: "\<not> occurs_ci ''<title>'' markup"
  then have sentinel: "extractTitle markup = NO_TITLE"
    by (rule extractors_absent)
  then have block: "title_evaluation (pageData_of markup) u = u - 20" for u
    by (simp add: title_evaluation_def pageData_of_def)
  have whole: "30 \<le> length t \<and> length t \<le> 60 \<longrightarrow>
      calculateSeoScore (pageData_of markup) =
      calculateSeoScore ((pageData_of markup)\<lparr>title := t\<rparr>) - 20"
    using title_evaluation_long [of t "pageData_of markup" 0] block [of 0]
    by (simp add: calculateSeoScore_sum evaluation_other_field)
  show ?thesis
    using sentinel block [of s] whole evaluation_ranges [of pd s] length_NO_TITLE by simp
qed

theorem no_title_exactly_missing_penalty_witness:
  "extractTitle (lit ''<html><body><p>Hi</p></body></html>'') = NO_TITLE \<and>
   title_evaluation (pageData_of (lit ''<html><body><p>Hi</p></body></html>'')) 100 = 80 \<and>
   calculateSeoScore (pageData_of (lit ''<html><body><p>Hi</p></body></html>'')) =
     calculateSeoScore
       ((pageData_of (lit ''<html><body><p>Hi</p></body></html>''))
          \<lparr>title := replicate 40 0x61\<rparr>) - 20"
proof -
  have "\<not> occurs_ci ''<title>'' (lit ''<html><body><p>Hi</p></body></html>'')"
    by (simp add: lit_def ascii_lower_def)
  from no_title_exactly_missing_penalty [OF this, of 100 "replicate 40 0x61"]
  show ?thesis by simp
qed

lemma found_end: "(run [] s k cap \<noteq> None) = anything s"
  by (simp add: anything_def)

lemma found_word:
  assumes "\<And>s k cap. (run r s k cap \<noteq> None) = P s"
  shows "(run (lit_i w @ r) s k cap \<noteq> None) = after_word w P s"
  using assms by (simp add: run_lit_i after_word_def)

lemma found_unit:
  assumes "\<And>s k cap. (run r s k cap \<noteq> None) = P s"
  shows "(run (Chr p # r) s k cap \<noteq> None) = after_unit p P s"
  using assms by (cases s) (simp_all add: after_unit_def)

lemma found_many:
  assumes "\<And>s k cap. (run r s k cap \<noteq> None) = P s"
  shows "(run (Many p # r) s k cap \<noteq> None) = after_run p P s"
proof (induction s arbitrary: k)
  case Nil
  then show ?case using assms by simp
next
  case (Cons x xs)
  show ?case
    using assms [of "x # xs" k cap] Cons [of "Suc k"]
    by (auto split: option.splits)
qed

lemma found_many1:
  assumes "\<And>s k cap. (run r s k cap \<noteq> None) = P s"
  shows "(run (Many1 p # r) s k cap \<noteq> None) = after_unit p (after_run p P) s"
  using found_many [OF assms] by (cases s) (simp_all add: after_unit_def)

lemma found_few:
  assumes "\<And>s k cap. (run r s k cap \<noteq> None) = P s"
  shows "(run (Few p # r) s k cap \<noteq> None) = after_run p P s"
proof (induction s arbitrary: k)
  case Nil
  then show ?case using assms by simp
next
  case (Cons x xs)
  show ?case
    using assms [of "x # xs" k cap] Cons [of "Suc k"]
    by (auto split: option.splits)
qed

lemma found_group:
  assumes "\<And>s k cap. (run r s k cap \<noteq> None) = P s"
  shows "(run (GroupOpen # r) s k cap \<noteq> None) = P s"
    and "(run (GroupClose # r) s k cap \<noteq> None) = P s"
  using assms by simp_all

lemmas found = found_word found_unit found_many found_many1 found_few found_group found_end










lemma occurs_ci_where: "occurs_ci w s = occurs_where (starts_with_ci w) s"
  by (induction s) auto














section \<open>Properties of the JSON round trip\<close>

lemma unat_of_nat_small: "n < 65536 \<Longrightarrow> unat (of_nat n :: jschar) = n"
  by (simp add: unat_of_nat)

lemma hexval_hexdigit: "d < 16 \<Longrightarrow> hexval (hexdigit d) = Some d"
proof (cases "d < 10")
  case True
  then have "unat (48 + of_nat d :: jschar) = 48 + d"
    using unat_of_nat_small [of "48 + d"] by simp
  then show ?thesis
    using True by (simp add: hexval_def hexdigit_def word_le_nat_alt)
next
  case False
  assume "d < 16"
  then have "unat (87 + of_nat d :: jschar) = 87 + d"
    using unat_of_nat_small [of "87 + d"] by simp
  then show ?thesis
    using False \<open>d < 16\<close> by (simp add: hexval_def hexdigit_def word_le_nat_alt)
qed

lemma hex_recompose:
  "16 * (16 * (16 * (n div 4096) + n div 256 mod 16) + n div 16 mod 16) + n mod 16 = (n::nat)"
proof -
  have b: "n div 256 = n div 16 div 16" by (simp add: div_mult2_eq)
  have c: "n div 4096 = n div 16 div 16 div 16" by (simp add: div_mult2_eq)
  show ?thesis unfolding b c by (simp add: mult_div_mod_eq)
qed

lemma parse_chars_uescape:
  "parse_chars Plain acc (uescape x @ r) = parse_chars Plain (acc @ [x]) r"
proof -
  let ?n = "unat x"
  have lt: "?n < 65536" using unsigned_less [of x] by simp
  have d: "?n div 4096 < 16" "?n div 256 mod 16 < 16" "?n div 16 mod 16 < 16"
    "?n mod 16 < 16"
    using lt by auto
  have recomposed: "(of_nat (16 * (16 * (16 * (?n div 4096) + ?n div 256 mod 16) + ?n div 16 mod 16)
      + ?n mod 16) :: jschar) = x"
    unfolding hex_recompose by simp
  show ?thesis
    using recomposed by (simp add: uescape_def hexval_hexdigit d)
qed

lemma parse_chars_quote_unit:
  "parse_chars Plain acc (quote_unit x @ r) = parse_chars Plain (acc @ [x]) r"
  by (simp add: quote_unit_def parse_chars_uescape unescape_def)

lemma surrogate_raw:
  "is_high x \<or> is_low x \<Longrightarrow> \<not> x < 0x20 \<and> x \<noteq> 0x22 \<and> x \<noteq> 0x5C"
  by (auto simp add: is_high_def is_low_def word_le_nat_alt word_less_nat_alt)

lemma parse_chars_quote_units:
  "parse_chars Plain acc (quote_units s @ 0x22 # r) = Some (acc @ s, r)"
proof (induction s arbitrary: acc rule: quote_units.induct)
  case 1
  then show ?case by simp
next
  case (2 x)
  then show ?case by (simp add: parse_chars_uescape parse_chars_quote_unit)
next
  case (3 x y ys)
  show ?case
  proof (cases "is_high x \<and> is_low y")
    case True
    then have "parse_chars Plain acc (x # y # quote_units ys @ 0x22 # r) =
        parse_chars Plain ((acc @ [x]) @ [y]) (quote_units ys @ 0x22 # r)"
      using surrogate_raw [of x] surrogate_raw [of y] by simp
    then show ?thesis using True 3(1) [of "(acc @ [x]) @ [y]"] by simp
  next
    case False
    show ?thesis
    proof (cases "is_high x \<or> is_low x")
      case True
      then have "quote_units (x # y # ys) = uescape x @ quote_units (y # ys)"
        using False by auto
      then show ?thesis
        using 3(2) [OF False True, of "acc @ [x]"]
        by (simp add: parse_chars_uescape del: quote_units.simps)
    next
      case neither: False
      then have "quote_units (x # y # ys) = quote_unit x @ quote_units (y # ys)"
        by auto
      then show ?thesis
        using 3(3) [OF False neither, of "acc @ [x]"]
        by (simp add: parse_chars_quote_unit del: quote_units.simps)
    qed
  qed
qed

lemma digit_props:
  assumes "d < 10"
  shows "is_digit (digit d)" "unat (digit d) - 48 = d" "digit d = 0x30 \<longleftrightarrow> d = 0"
    "digit d \<noteq> 0x2D" "first_ok (digit d)"
    "digit d \<notin> {0x7B, 0x5B, 0x22, 0x74, 0x66, 0x6E}"
proof -
  have u: "unat (48 + of_nat d :: jschar) = 48 + d"
    using assms unat_of_nat_small [of "48 + d"] by simp
  show "is_digit (digit d)"
    using u assms by (simp add: is_digit_def digit_def word_le_nat_alt)
  show "unat (digit d) - 48 = d"
    using u by (simp add: digit_def)
  have neq: "digit d \<noteq> w" if "unat w \<noteq> 48 + d" for w
    using u that by (auto simp add: digit_def)
  show "digit d = 0x30 \<longleftrightarrow> d = 0"
    using neq [of "0x30"] by (auto simp add: digit_def)
  show "digit d \<noteq> 0x2D"
    using neq [of "0x2D"] assms by simp
  show "first_ok (digit d)"
    unfolding first_ok_def ws_def
    using neq [of "0x5D"] neq [of "0x7D"] neq [of "0x20"] neq [of "0x09"] neq [of "0x0A"]
      neq [of "0x0D"] assms
    by simp
  show "digit d \<notin> {0x7B, 0x5B, 0x22, 0x74, 0x66, 0x6E}"
    using neq [of "0x7B"] neq [of "0x5B"] neq [of "0x22"] neq [of "0x74"] neq [of "0x66"]
      neq [of "0x6E"] assms
    by simp
qed

lemma number_toString_nonempty: "number_toString n \<noteq> []"
  by (subst number_toString.simps) simp

lemma number_toString_digits: "x \<in> set (number_toString n) \<Longrightarrow> is_digit x"
proof (induction n rule: number_toString.induct)
  case (1 n)
  then show ?case
    by (subst (asm) number_toString.simps) (auto simp add: digit_props split: if_splits)
qed

lemma hd_number_toString: "\<exists>d < 10. hd (number_toString n) = digit d \<and> (d = 0 \<longrightarrow> n = 0)"
proof (induction n rule: number_toString.induct)
  case (1 n)
  show ?case
  proof (cases "n < 10")
    case True
    then show ?thesis by (subst number_toString.simps) auto
  next
    case False
    then obtain d where "d < 10" "hd (number_toString (n div 10)) = digit d"
      "d = 0 \<longrightarrow> n div 10 = 0"
      using 1 by blast
    then show ?thesis
      using False number_toString_nonempty [of "n div 10"]
      by (subst number_toString.simps) auto
  qed
qed

lemma length_number_toString: "1 < length (number_toString n) \<Longrightarrow> 0 < n"
  by (subst (asm) number_toString.simps) (auto split: if_splits)

lemma digits_value_snoc: "digits_value (ds @ [x]) = 10 * digits_value ds + (unat x - 48)"
  by (simp add: digits_value_def)

lemma digits_value_number_toString: "digits_value (number_toString n) = n"
proof (induction n rule: number_toString.induct)
  case (1 n)
  show ?case
  proof (cases "n < 10")
    case True
    then show ?thesis
      by (subst number_toString.simps) (simp add: digits_value_def digit_props)
  next
    case False
    then show ?thesis
      using 1 by (subst number_toString.simps) (simp add: digits_value_snoc digit_props)
  qed
qed

lemma follow_ok_not_number:
  "follow_ok rest \<Longrightarrow> rest = [] \<or> (\<not> is_digit (hd rest) \<and> hd rest \<notin> {0x2E, 0x65, 0x45})"
  by (auto simp add: follow_ok_def is_digit_def split: list.splits)

lemma takeWhile_digits:
  "follow_ok rest \<Longrightarrow>
   takeWhile is_digit (number_toString n @ rest) = number_toString n \<and>
   dropWhile is_digit (number_toString n @ rest) = rest"
proof -
  assume "follow_ok rest"
  then have "rest = [] \<or> \<not> is_digit (hd rest)"
    using follow_ok_not_number by blast
  then have "takeWhile is_digit rest = [] \<and> dropWhile is_digit rest = rest"
    by (cases rest) auto
  then show ?thesis
    using number_toString_digits [of _ n]
    by (simp add: takeWhile_append2 dropWhile_append2)
qed

lemma parse_number_digits:
  assumes "follow_ok rest" "s = (if neg then [0x2D] else []) @ number_toString n @ rest"
  shows "parse_number s =
    Some (JNum (if neg then - int n else int n), rest)"
proof -
  obtain d where d: "d < 10" "hd (number_toString n) = digit d" "d = 0 \<longrightarrow> n = 0"
    using hd_number_toString by blast
  have ne: "number_toString n \<noteq> []" by (rule number_toString_nonempty)
  have neg: "(s \<noteq> [] \<and> hd s = 0x2D) = neg"
    using assms(2) ne d digit_props(4) [of d] by (cases neg) auto
  have s1: "(if neg then tl s else s) = number_toString n @ rest"
    using assms(2) by simp
  have lead: "\<not> (1 < length (number_toString n) \<and> hd (number_toString n) = 0x30)"
    using d digit_props(3) [of d] length_number_toString [of n] by auto
  note tw = takeWhile_digits [OF assms(1), of n, THEN conjunct1]
    and dw = takeWhile_digits [OF assms(1), of n, THEN conjunct2]
  show ?thesis
  proof (cases rest)
    case Nil
    show ?thesis
      unfolding parse_number_def Let_def neg s1 tw dw
      using ne lead Nil by (simp add: digits_value_number_toString)
  next
    case (Cons y ys)
    then have "y \<noteq> 0x2E" "y \<noteq> 0x65" "y \<noteq> 0x45"
      using follow_ok_not_number [OF assms(1)] by auto
    then show ?thesis
      unfolding parse_number_def Let_def neg s1 tw dw
      using ne lead Cons by (simp add: digits_value_number_toString)
  qed
qed

lemma skip_ws_first_ok [simp]: "first_ok x \<Longrightarrow> skip_ws (x # xs) = x # xs"
  by (simp add: skip_ws_def first_ok_def)

lemma first_ok_simps [simp]:
  "first_ok 0x22" "first_ok 0x5B" "first_ok 0x7B" "first_ok 0x2C" "first_ok 0x3A"
  "first_ok 0x2D" "\<not> first_ok 0x5D" "\<not> first_ok 0x7D"
  by (simp_all add: first_ok_def ws_def)

lemma skip_ws_close [simp]:
  "skip_ws (0x5D # xs) = 0x5D # xs" "skip_ws (0x7D # xs) = 0x7D # xs"
  by (simp_all add: skip_ws_def ws_def)

lemma follow_ok_simps [simp]:
  "follow_ok (0x2C # xs)" "follow_ok (0x5D # xs)" "follow_ok (0x7D # xs)" "follow_ok []"
  by (simp_all add: follow_ok_def)

lemma stringify_head: "wf_json v \<Longrightarrow> \<exists>x xs. JSON_stringify v = x # xs \<and> first_ok x"
proof (cases v)
  case (JNum n)
  obtain d where d: "d < 10" "hd (number_toString (nat n)) = digit d"
    using hd_number_toString by blast
  then have "first_ok (hd (number_toString (nat n)))"
    using digit_props(5) by simp
  then have "\<exists>x xs. number_toString (nat n) = x # xs \<and> first_ok x"
    using number_toString_nonempty [of "nat n"] by (cases "number_toString (nat n)") auto
  then show ?thesis using JNum by auto
qed (auto simp add: lit_def first_ok_def ws_def QuoteJSONString_def)

lemma join_head:
  "vs \<noteq> [] \<Longrightarrow> f (hd vs) = x # xs \<Longrightarrow> \<exists>ys. join sep (map f vs) = x # ys"
proof (cases vs)
  case Nil
  assume "vs \<noteq> []"
  then show ?thesis using Nil by simp
next
  case (Cons v ws)
  assume "f (hd vs) = x # xs"
  then show ?thesis using Cons by (cases ws) auto
qed

lemma member_text_pair:
  "member_text (k, v) = 0x22 # quote_units k @ 0x22 # 0x3A # JSON_stringify v"
  by (simp add: member_text_def QuoteJSONString_def)

lemma upsert_fresh: "k \<notin> fst ` set acc \<Longrightarrow> upsert k v acc = acc @ [(k, v)]"
  by (induction acc) auto

lemma parse_elements_join:
  assumes "\<forall>v \<in> set vs. roundtrips v" "vs \<noteq> []"
    "length (join [0x2C] (map JSON_stringify vs)) < n"
  shows "parse_elements n acc (join [0x2C] (map JSON_stringify vs) @ 0x5D # rest) =
    Some (JArr (acc @ vs), rest)"
  using assms
proof (induction vs arbitrary: n acc rule: induct_list012)
  case 1
  then show ?case by simp
next
  case (2 v)
  then obtain m where n: "n = Suc m" by (cases n) auto
  have "parse_value m (JSON_stringify v @ 0x5D # rest) = Some (v, 0x5D # rest)"
    using 2 n by (simp add: roundtrips_def)
  then show ?case by (simp add: n)
next
  case (3 v w ws)
  then obtain m where n: "n = Suc m" by (cases n) auto
  let ?tail = "join [0x2C] (map JSON_stringify (w # ws)) @ 0x5D # rest"
  have "parse_value m (JSON_stringify v @ 0x2C # ?tail) = Some (v, 0x2C # ?tail)"
    using 3(3,5) n by (simp add: roundtrips_def)
  moreover have "parse_elements m (acc @ [v]) ?tail = Some (JArr ((acc @ [v]) @ w # ws), rest)"
    using 3(3,5) n by (intro 3(2)) auto
  ultimately show ?case by (simp add: n)
qed

lemma parse_members_join:
  assumes "\<forall>m \<in> set ms. roundtrips (snd m)" "ms \<noteq> []" "distinct (map fst (acc @ ms))"
    "length (join [0x2C] (map member_text ms)) < n"
  shows "parse_members n acc (join [0x2C] (map member_text ms) @ 0x7D # rest) =
    Some (JObj (acc @ ms), rest)"
  using assms
proof (induction ms arbitrary: n acc rule: induct_list012)
  case 1
  then show ?case by simp
next
  case (2 kv)
  then obtain m where n: "n = Suc m" by (cases n) auto
  obtain k v where kv: "kv = (k, v)" by (cases kv)
  have fresh: "upsert k v acc = acc @ [(k, v)]"
    using 2(3) kv by (intro upsert_fresh) auto
  have key: "parse_chars Plain [] (quote_units k @ 0x22 # 0x3A # JSON_stringify v @ 0x7D # rest)
      = Some (k, 0x3A # JSON_stringify v @ 0x7D # rest)"
    using parse_chars_quote_units [of "[]" k] by simp
  have "parse_value m (JSON_stringify v @ 0x7D # rest) = Some (v, 0x7D # rest)"
    using 2(1,4) n kv by (simp add: roundtrips_def member_text_pair)
  then show ?case
    using key fresh by (simp add: n kv member_text_pair)
next
  case (3 kv w ws)
  then obtain m where n: "n = Suc m" by (cases n) auto
  obtain k v where kv: "kv = (k, v)" by (cases kv)
  let ?tail = "join [0x2C] (map member_text (w # ws)) @ 0x7D # rest"
  have fresh: "upsert k v acc = acc @ [(k, v)]"
    using 3(5) kv by (intro upsert_fresh) auto
  have key: "parse_chars Plain [] (quote_units k @ 0x22 # 0x3A # JSON_stringify v @ 0x2C # ?tail)
      = Some (k, 0x3A # JSON_stringify v @ 0x2C # ?tail)"
    using parse_chars_quote_units [of "[]" k] by simp
  have val: "parse_value m (JSON_stringify v @ 0x2C # ?tail) = Some (v, 0x2C # ?tail)"
    using 3(3,6) n kv by (simp add: roundtrips_def member_text_pair)
  have "parse_members m (acc @ [(k, v)]) ?tail = Some (JObj ((acc @ [(k, v)]) @ w # ws), rest)"
    using 3(3,5,6) n kv by (intro 3(2)) (auto simp add: member_text_pair)
  then show ?case
    using key fresh val by (simp add: n kv member_text_pair)
qed

lemma starts_with_other:
  "x \<noteq> c \<Longrightarrow> \<not> starts_with (c # w) (x # xs)"
  by (simp add: starts_with_def)

lemma lit_Cons: "lit (c # cs) = of_nat (of_char c) # lit cs"
  by (simp add: lit_def)

lemma parse_value_number:
  assumes "follow_ok rest" "d < 10" "s = (if neg then [0x2D] else []) @ number_toString n @ rest"
    "hd (number_toString n) = digit d"
  shows "parse_value (Suc m) s = Some (JNum (if neg then - int n else int n), rest)"
proof -
  obtain x xs where s: "s = x # xs" and x: "x = (if neg then 0x2D else digit d)"
    using assms(3,4) number_toString_nonempty [of n]
    by (cases neg; cases "number_toString n") auto
  have ok: "first_ok x"
    using x digit_props(5) [OF assms(2)] by simp
  have no: "x \<notin> {0x7B, 0x5B, 0x22, 0x74, 0x66, 0x6E}"
    using x digit_props(6) [OF assms(2)] by simp
  have "parse_value (Suc m) (x # xs) = parse_number (x # xs)"
    using ok no by (simp add: lit_Cons starts_with_other)
  then show ?thesis
    using parse_number_digits [OF assms(1,3)] s by simp
qed

lemma parse_value_array:
  assumes "first_ok x"
  shows "parse_value (Suc n) (0x5B # x # xs) = parse_elements n [] (x # xs)"
proof -
  have "x \<noteq> 0x5D" using assms by (auto simp add: first_ok_def)
  then show ?thesis using assms by simp
qed

lemma parse_value_object:
  assumes "first_ok x"
  shows "parse_value (Suc n) (0x7B # x # xs) = parse_members n [] (x # xs)"
proof -
  have "x \<noteq> 0x7D" using assms by (auto simp add: first_ok_def)
  then show ?thesis using assms by simp
qed

lemma roundtrips_wf: "wf_json v \<Longrightarrow> roundtrips v"
proof (induction v)
  case JNull
  show ?case
    unfolding roundtrips_def
  proof (intro allI impI)
    fix n rest
    assume "length (JSON_stringify JNull) \<le> n"
    then obtain m where "n = Suc m" by (cases n) (auto simp add: lit_def)
    then show "parse_value n (JSON_stringify JNull @ rest) = Some (JNull, rest)"
      by (simp add: lit_def starts_with_def first_ok_def ws_def)
  qed
next
  case (JBool b)
  show ?case
    unfolding roundtrips_def
  proof (intro allI impI)
    fix n rest
    assume "length (JSON_stringify (JBool b)) \<le> n"
    then obtain m where "n = Suc m" by (cases n; cases b) (auto simp add: lit_def)
    then show "parse_value n (JSON_stringify (JBool b) @ rest) = Some (JBool b, rest)"
      by (simp add: lit_def starts_with_def first_ok_def ws_def)
  qed
next
  case (JNum i)
  show ?case
    unfolding roundtrips_def
  proof (intro allI impI)
    fix n rest
    assume len: "length (JSON_stringify (JNum i)) \<le> n" and follow: "follow_ok rest"
    obtain m where n: "n = Suc m"
      using len number_toString_nonempty [of "nat i"] by (cases n) (auto split: if_splits)
    obtain d where d: "d < 10" "hd (number_toString (nat \<bar>i\<bar>)) = digit d"
      using hd_number_toString by blast
    have "parse_value (Suc m)
        ((if i < 0 then [0x2D] else []) @ number_toString (nat \<bar>i\<bar>) @ rest) =
        Some (JNum (if i < 0 then - int (nat \<bar>i\<bar>) else int (nat \<bar>i\<bar>)), rest)"
      by (rule parse_value_number [OF follow d(1) refl d(2)])
    then show "parse_value n (JSON_stringify (JNum i) @ rest) = Some (JNum i, rest)"
      by (cases "i < 0") (simp_all add: n abs_if)
  qed
next
  case (JDec t)
  then show ?case by simp
next
  case (JStr s)
  show ?case
    unfolding roundtrips_def
  proof (intro allI impI)
    fix n rest
    assume "length (JSON_stringify (JStr s)) \<le> n"
    then obtain m where "n = Suc m" by (cases n) (auto simp add: QuoteJSONString_def)
    then show "parse_value n (JSON_stringify (JStr s) @ rest) = Some (JStr s, rest)"
      using parse_chars_quote_units [of "[]" s rest] by (simp add: QuoteJSONString_def)
  qed
next
  case (JArr vs)
  then have elems: "\<forall>v \<in> set vs. roundtrips v" and wf: "\<forall>v \<in> set vs. wf_json v"
    by auto
  show ?case
    unfolding roundtrips_def
  proof (intro allI impI)
    fix n rest
    assume len: "length (JSON_stringify (JArr vs)) \<le> n"
    then obtain m where n: "n = Suc m" by (cases n) auto
    show "parse_value n (JSON_stringify (JArr vs) @ rest) = Some (JArr vs, rest)"
    proof (cases "vs = []")
      case True
      then show ?thesis by (simp add: n)
    next
      case False
      then obtain x xs where "JSON_stringify (hd vs) = x # xs" "first_ok x"
        using stringify_head [of "hd vs"] wf by auto
      then obtain ys where ys: "join [0x2C] (map JSON_stringify vs) = x # ys" and ok: "first_ok x"
        using join_head [OF False, of JSON_stringify x xs] by blast
      have "parse_elements m [] (join [0x2C] (map JSON_stringify vs) @ 0x5D # rest) =
          Some (JArr ([] @ vs), rest)"
        using len n by (intro parse_elements_join elems False) simp
      then show ?thesis
        using ys by (simp add: n parse_value_array [OF ok] del: parse_value.simps)
    qed
  qed
next
  case (JObj ms)
  then have elems: "\<forall>m \<in> set ms. roundtrips (snd m)" and wf: "\<forall>m \<in> set ms. wf_json (snd m)"
    and dist: "distinct (map fst ms)"
    by (auto simp add: snds.simps)
  have "member_text = (\<lambda>m. QuoteJSONString (fst m) @ 0x3A # JSON_stringify (snd m))"
    by (rule ext) (simp add: member_text_def)
  then have str: "JSON_stringify (JObj ms) = 0x7B # join [0x2C] (map member_text ms) @ [0x7D]"
    by simp
  show ?case
    unfolding roundtrips_def str
  proof (intro allI impI)
    fix n rest
    assume len: "length (0x7B # join [0x2C] (map member_text ms) @ [0x7D]) \<le> n"
    then obtain m where n: "n = Suc m" by (cases n) auto
    show "parse_value n ((0x7B # join [0x2C] (map member_text ms) @ [0x7D]) @ rest) =
        Some (JObj ms, rest)"
    proof (cases "ms = []")
      case True
      then show ?thesis by (simp add: n)
    next
      case False
      have "member_text (hd ms) = 0x22 # tl (member_text (hd ms))"
        by (simp add: member_text_def QuoteJSONString_def)
      then obtain ys where ys: "join [0x2C] (map member_text ms) = 0x22 # ys"
        using join_head [OF False, of member_text "0x22"] by blast
      have "parse_members m [] (join [0x2C] (map member_text ms) @ 0x7D # rest) =
          Some (JObj ([] @ ms), rest)"
        using len n dist by (intro parse_members_join elems False) simp_all
      then show ?thesis
        using ys by (simp add: n parse_value_object del: parse_value.simps)
    qed
  qed
qed

lemma JSON_roundtrip: "wf_json v \<Longrightarrow> JSON_parse (JSON_stringify v) = Some v"
proof -
  assume "wf_json v"
  then have "roundtrips v" by (rule roundtrips_wf)
  then have "length (JSON_stringify v) \<le> Suc (length (JSON_stringify v)) \<longrightarrow>
      follow_ok [] \<longrightarrow>
      parse_value (Suc (length (JSON_stringify v))) (JSON_stringify v @ []) = Some (v, [])"
    unfolding roundtrips_def by blast
  then have "parse_value (Suc (length (JSON_stringify v))) (JSON_stringify v) = Some (v, [])"
    by (simp del: parse_value.simps)
  then show ?thesis
    by (simp add: JSON_parse_def skip_ws_def del: parse_value.simps)
qed

section \<open>Properties of the orchestrator and the handlers\<close>

lemmas io_defs = io_return_def io_throw_def io_bind_def io_catch_def req_json_def on_error_def
  store_op_def invoke_def call_fetch_def call_embed_def call_query_def call_generate_def
  db_insert_def db_select_def db_upsert_def cache_get_def cache_put_def

lemma or_else_truthy: "\<not> falsy d \<Longrightarrow> \<not> falsy (or_else x d)"
  by (simp add: or_else_def split: option.split)

lemma chat_sources_map:
  "chat_sources matches = map (\<lambda>m. or_else (source_of m) (lit ''Unknown'')) matches"
proof -
  have "\<not> falsy (lit ''Unknown'')" by (simp add: falsy_def lit_def)
  then show ?thesis
    unfolding chat_sources_def by (simp add: or_else_truthy)
qed

lemma analyzeSeoMultiStep_result:
  assumes "analyzeSeoMultiStep env url w = (Inr r, w')"
  shows "fst r = pageData_of (html (fst r)) \<and>
    score (snd r) = calculateSeoScore (fst r) \<and>
    issues (snd r) = findSeoIssues (fst r) \<and>
    recommendations (snd r) = generateRecommendations (fst r) \<and>
    fetch_text env url = Inr (html (fst r)) \<and>
    cache w' (lit ''analysis:'' @ url) = Some (JSON_stringify (result_json r))"
  using assms
  unfolding analyzeSeoMultiStep_def io_defs Let_def
  by (auto split: sum.splits option.splits prod.splits simp add: pageData_of_def)

lemma wf_result_json: "wf_json (result_json r)"
  by (auto simp add: result_json_def pageData_json_def analysis_json_def
      recommendations_json_def recommendation_json_def lit_def)

lemma stringify_result_nonempty: "\<not> falsy (JSON_stringify (result_json r))"
  by (simp add: result_json_def falsy_def)

lemma field_simps:
  "field (JObj ((k, v) # ms)) k' = (if k = k' then Some v else field (JObj ms) k')"
  "field (JObj []) k' = None"
  by (simp_all add: field_def)

lemma first_analyze_fresh:
  assumes "post_api_analyze env (Inr (Some url)) w = ((200, b), w1)"
    "field b (lit ''cached'') = Some (JBool False)"
  shows "\<exists>r w'. analyzeSeoMultiStep env url w' = (Inr r, w1) \<and>
    b = JObj [(lit ''cached'', JBool False), (lit ''data'', result_json r),
              (lit ''message'', JStr (lit ''Analysis complete''))]"
  using assms
  unfolding post_api_analyze_def io_return_def io_throw_def io_bind_def io_catch_def
    req_json_def on_error_def store_op_def cache_get_def Let_def
  by (auto split: if_splits sum.splits option.splits prod.splits simp add: field_simps)

text \<open>
  Claim C8. The text that \<open>JSON.stringify\<close> writes for the result of an analysis is read
  back by \<open>JSON.parse\<close> as the same value, member for member and in the same order. So
  when a call of the analyze handler has answered with a freshly computed result, a second
  call for the same URL on the world that the first call left behind (nothing evicted,
  nothing expired), with a cache read that does not fail, answers with status 200, the
  marker \<open>cached = true\<close> and the same \<open>data\<close>. The only collaborator call of the second
  request is that cache read: nothing is fetched, embedded, queried, scored or stored, also
  in an environment in which these would answer differently.
\<close>

theorem cache_hit_returns_stored_result:
  "JSON_parse (JSON_stringify (result_json r)) = Some (result_json r) \<and>
   (post_api_analyze env (Inr (Some url)) w = ((200, b), w1) \<and>
    field b (lit ''cached'') = Some (JBool False) \<and>
    field b (lit ''data'') = Some d \<and>
    store_fault env' (CacheGet (lit ''analysis:'' @ url)) = None \<longrightarrow>
      post_api_analyze env' (Inr (Some url)) w1 =
        ((200, JObj [(lit ''cached'', JBool True), (lit ''data'', d),
                     (lit ''message'', JStr (lit ''Retrieved from cache''))]),
         invoke (CacheGet (lit ''analysis:'' @ url)) w1))"
proof (intro conjI impI)
  show "JSON_parse (JSON_stringify (result_json r)) = Some (result_json r)"
    by (rule JSON_roundtrip [OF wf_result_json])
next
  assume a: "post_api_analyze env (Inr (Some url)) w = ((200, b), w1) \<and>
    field b (lit ''cached'') = Some (JBool False) \<and>
    field b (lit ''data'') = Some d \<and>
    store_fault env' (CacheGet (lit ''analysis:'' @ url)) = None"
  then obtain r' w' where run: "analyzeSeoMultiStep env url w' = (Inr r', w1)"
    and b: "b = JObj [(lit ''cached'', JBool False), (lit ''data'', result_json r'),
              (lit ''message'', JStr (lit ''Analysis complete''))]"
    using first_analyze_fresh by blast
  have d: "d = result_json r'"
    using a b by (simp add: field_simps lit_def)
  have url: "\<not> falsy url"
    using a
    unfolding post_api_analyze_def io_return_def io_bind_def io_catch_def req_json_def Let_def
    by (auto split: if_splits)
  let ?text = "JSON_stringify (result_json r')"
  have stored: "cache w1 (lit ''analysis:'' @ url) = Some ?text"
    using analyzeSeoMultiStep_result [OF run] by simp
  have parsed: "JSON_parse ?text = Some (result_json r')"
    by (rule JSON_roundtrip [OF wf_result_json])
  have nonempty: "\<not> falsy ?text"
    by (rule stringify_result_nonempty)
  show "post_api_analyze env' (Inr (Some url)) w1 =
        ((200, JObj [(lit ''cached'', JBool True), (lit ''data'', d),
                     (lit ''message'', JStr (lit ''Retrieved from cache''))]),
         invoke (CacheGet (lit ''analysis:'' @ url)) w1)"
    using a url stored parsed nonempty
    unfolding post_api_analyze_def io_return_def io_throw_def io_bind_def io_catch_def
      req_json_def store_op_def cache_get_def d Let_def
    by (simp add: invoke_def)
qed

text \<open>
  Claim C5. For every text the score of its extracted features lies between 0 and 100.
  Score, issues and recommendations of an analysis are functions of the fetched text alone:
  two successful runs of \<open>analyzeSeoMultiStep\<close>, in any two environments and worlds, that
  fetched the same text return the same score, issues and recommendations, namely those of
  the features extracted from that text.
\<close>

theorem scoring_pipeline_pure:
  "0 \<le> calculateSeoScore (pageData_of markup) \<and>
   calculateSeoScore (pageData_of markup) \<le> 100 \<and>
   (analyzeSeoMultiStep env url1 w1 = (Inr r1, w1') \<and>
    analyzeSeoMultiStep env' url2 w2 = (Inr r2, w2') \<and>
    html (fst r1) = html (fst r2) \<longrightarrow>
      score (snd r1) = score (snd r2) \<and>
      issues (snd r1) = issues (snd r2) \<and>
      recommendations (snd r1) = recommendations (snd r2) \<and>
      score (snd r1) = calculateSeoScore (pageData_of (html (fst r1))) \<and>
      issues (snd r1) = findSeoIssues (pageData_of (html (fst r1))) \<and>
      recommendations (snd r1) = generateRecommendations (pageData_of (html (fst r1))))"
proof (intro conjI impI)
  show "0 \<le> calculateSeoScore (pageData_of markup)"
    using calculateSeoScore_bounds [of "pageData_of markup"] by simp
  show "calculateSeoScore (pageData_of markup) \<le> 100"
    using calculateSeoScore_bounds [of "pageData_of markup"] by simp
next
  assume a: "analyzeSeoMultiStep env url1 w1 = (Inr r1, w1') \<and>
    analyzeSeoMultiStep env' url2 w2 = (Inr r2, w2') \<and> html (fst r1) = html (fst r2)"
  note one = analyzeSeoMultiStep_result [of env url1 w1 r1 w1']
    and two = analyzeSeoMultiStep_result [of env' url2 w2 r2 w2']
  have same: "fst r1 = fst r2"
    using a one two by metis
  show "score (snd r1) = score (snd r2)" using a one two same by simp
  show "issues (snd r1) = issues (snd r2)" using a one two same by simp
  show "recommendations (snd r1) = recommendations (snd r2)" using a one two same by simp
  show "score (snd r1) = calculateSeoScore (pageData_of (html (fst r1)))"
    using a one by simp
  show "issues (snd r1) = findSeoIssues (pageData_of (html (fst r1)))"
    using a one by simp
  show "recommendations (snd r1) = generateRecommendations (pageData_of (html (fst r1)))"
    using a one by simp
qed

lemma members_sources:
  "field (members [(lit ''response'', x), (lit ''sources'', Some v)]) (lit ''sources'') = Some v"
  by (cases x) (simp_all add: members_def field_def lit_def)

text \<open>
  Claim C3, as the code has it. The sources of a chat response are the source labels of the
  retrieved passages in retrieval order, one entry for each passage, with "Unknown" for a
  passage whose label is missing or empty. Nothing is removed: \<open>filter(Boolean)\<close> drops
  empty entries only, and after the default there are none.
\<close>

theorem chat_sources_one_per_passage:
  "chat_sources matches = map (\<lambda>m. or_else (source_of m) (lit ''Unknown'')) matches \<and>
   length (chat_sources matches) = length matches \<and>
   (embed env message = Inr q \<and> vector_query env q 5 = Inr matches \<and>
    fst (fst (post_api_chat env (Inr (message, sessionId)) w)) = 200 \<longrightarrow>
      field (snd (fst (post_api_chat env (Inr (message, sessionId)) w))) (lit ''sources'') =
        Some (JArr (map JStr (chat_sources matches))))"
proof (intro conjI impI)
  show "chat_sources matches = map (\<lambda>m. or_else (source_of m) (lit ''Unknown'')) matches"
    by (rule chat_sources_map)
  show "length (chat_sources matches) = length matches"
    by (simp add: chat_sources_map)
next
  assume a: "embed env message = Inr q \<and> vector_query env q 5 = Inr matches \<and>
    fst (fst (post_api_chat env (Inr (message, sessionId)) w)) = 200"
  then show "field (snd (fst (post_api_chat env (Inr (message, sessionId)) w))) (lit ''sources'')
      = Some (JArr (map JStr (chat_sources matches)))"
    unfolding post_api_chat_def io_defs Let_def
    by (auto split: sum.splits option.splits prod.splits simp add: members_sources)
qed

theorem chat_sources_one_per_passage_witness:
  "chat_sources [passage ''a'' ''Link Building'', \<lparr>vmeta = None\<rparr>] =
     [lit ''Link Building'', lit ''Unknown''] \<and>
   field
     (snd (fst (post_api_chat sample_env (Inr (Some (lit ''What is SEO?''), Some (lit ''s1'')))
        empty_world)))
     (lit ''sources'') =
     Some (JArr (map JStr (chat_sources sample_passages)))"
proof -
  have ok: "fst (fst (post_api_chat sample_env
      (Inr (Some (lit ''What is SEO?''), Some (lit ''s1''))) empty_world)) = 200"
    unfolding post_api_chat_def io_defs Let_def by (simp add: sample_env_def)
  have e: "embed sample_env (Some (lit ''What is SEO?'')) = Inr 0"
    "vector_query sample_env 0 5 = Inr sample_passages"
    by (simp_all add: sample_env_def)
  have s: "map (\<lambda>m. or_else (source_of m) (lit ''Unknown''))
      [passage ''a'' ''Link Building'', \<lparr>vmeta = None\<rparr>] =
      [lit ''Link Building'', lit ''Unknown'']"
    by (simp add: or_else_def source_of_def passage_def falsy_def lit_def)
  show ?thesis
    using chat_sources_one_per_passage [of "[passage ''a'' ''Link Building'', \<lparr>vmeta = None\<rparr>]"
        sample_env "Some (lit ''What is SEO?'')" 0 None empty_world]
      chat_sources_one_per_passage [of sample_passages sample_env "Some (lit ''What is SEO?'')" 0
        "Some (lit ''s1'')" empty_world]
      ok e s
    by simp
qed

text \<open>
  Claim C3 as stated promises a list without repeated labels. When the index returns two
  passages that both declare "SEO Best Practices", as two entries of the knowledge base do,
  the response lists that label twice.
\<close>

theorem chat_sources_duplicate_counterexample:
  "field
     (snd (fst (post_api_chat sample_env (Inr (Some (lit ''What is SEO?''), Some (lit ''s1'')))
        empty_world)))
     (lit ''sources'') =
     Some (JArr [JStr (lit ''SEO Best Practices''), JStr (lit ''SEO Best Practices'')])"
  unfolding post_api_chat_def io_defs Let_def
  by (simp add: sample_env_def sample_passages_def members_def field_def chat_sources_map
      or_else_def source_of_def passage_def falsy_def lit_def)

text \<open>
  Claim C4 at its failing input. A request to the analyze handler without \<open>url\<close>, or with
  an empty one, is answered with status 400 and no collaborator is called. A request to the
  chat handler without \<open>message\<close> is not rejected: the first thing the handler does is to
  call the embedding model with an undefined text, and its answer has status 200 or 500,
  never 400.
\<close>

theorem missing_field_handling:
  "post_api_analyze env (Inr None) w =
     ((400, JObj [(lit ''error'', JStr (lit ''URL is required''))]), w) \<and>
   post_api_analyze env (Inr (Some [])) w =
     ((400, JObj [(lit ''error'', JStr (lit ''URL is required''))]), w) \<and>
   take (Suc (length (calls w))) (calls (snd (post_api_chat env (Inr (None, sessionId)) w))) =
     calls w @ [Embed None] \<and>
   fst (fst (post_api_chat env (Inr (None, sessionId)) w)) \<in> {200, 500}"
  unfolding post_api_analyze_def post_api_chat_def io_defs Let_def
  by (auto split: sum.splits option.splits prod.splits simp add: falsy_def)

lemma sample_features:
  "extractTitle sample_markup = lit ''Short''"
  "extractMetaDescription sample_markup = NO_META"
  "extractHeadings sample_markup = []"
  "extractImages sample_markup = []"
  "extractLinks sample_markup = []"
proof -
  have "first_title sample_markup = Some (lit ''Short'')"
    by (simp add: sample_markup_def lit_def ascii_lower_def dot_def)
  then show "extractTitle sample_markup = lit ''Short''"
    by (simp add: extractTitle_first_title)
  have absent: "\<not> occurs_ci ''<meta'' sample_markup" "\<not> occurs_ci ''<img'' sample_markup"
    "\<not> occurs_ci ''<a'' sample_markup"
    by (simp_all add: sample_markup_def lit_def ascii_lower_def)
  then show "extractMetaDescription sample_markup = NO_META"
    "extractImages sample_markup = []" "extractLinks sample_markup = []"
    by (simp_all add: extractors_absent)
  show "extractHeadings sample_markup = []"
    by (simp add: extractHeadings_def HEADING_RE_def sample_markup_def lit_i_def chr_i_def
        match_at_def lit_def ascii_lower_def digit_1_6_def)
qed

lemma sample_score: "calculateSeoScore (pageData_of sample_markup) = 45"
  by (simp add: calculateSeoScore_def pageData_of_def sample_features title_evaluation_def
      meta_description_evaluation_def headings_evaluation_def images_evaluation_def
      links_evaluation_def falsy_def NO_TITLE_def lit_def)

lemma sample_runs:
  "fst (analyzeSeoMultiStep sample_env sample_url w) = Inr (sample_result sample_passages)"
  "fst (analyzeSeoMultiStep quiet_env sample_url w) = Inr (sample_result [])"
  unfolding analyzeSeoMultiStep_def io_defs Let_def
  by (simp_all add: sample_env_def quiet_env_def sample_result_def)

lemma pair_fst_snd: "fst x = a \<Longrightarrow> x = (a, snd x)"
  by auto

theorem scoring_pipeline_pure_witness:
  "score (snd (sample_result sample_passages)) = 45 \<and>
   score (snd (sample_result [])) = 45 \<and>
   issues (snd (sample_result sample_passages)) = issues (snd (sample_result [])) \<and>
   recommendations (snd (sample_result sample_passages)) =
     recommendations (snd (sample_result [])) \<and>
   0 \<le> calculateSeoScore (pageData_of sample_markup) \<and>
   calculateSeoScore (pageData_of sample_markup) \<le> 100"
proof -
  have one: "analyzeSeoMultiStep sample_env sample_url empty_world =
      (Inr (sample_result sample_passages),
       snd (analyzeSeoMultiStep sample_env sample_url empty_world))"
    by (rule pair_fst_snd [OF sample_runs(1)])
  have two: "analyzeSeoMultiStep quiet_env sample_url empty_world =
      (Inr (sample_result []), snd (analyzeSeoMultiStep quiet_env sample_url empty_world))"
    by (rule pair_fst_snd [OF sample_runs(2)])
  have same: "html (fst (sample_result sample_passages)) = html (fst (sample_result []))"
    by (simp add: sample_result_def)
  have "score (snd (sample_result sample_passages)) = 45"
    by (simp add: sample_result_def sample_score)
  then show ?thesis
    using scoring_pipeline_pure [of sample_markup sample_env sample_url empty_world
        "sample_result sample_passages"
        "snd (analyzeSeoMultiStep sample_env sample_url empty_world)"
        quiet_env sample_url empty_world "sample_result []"
        "snd (analyzeSeoMultiStep quiet_env sample_url empty_world)"]
      one two same
    by simp
qed

lemma sample_first_call:
  "fst (post_api_analyze sample_env (Inr (Some sample_url)) empty_world) =
     (200, JObj [(lit ''cached'', JBool False),
                 (lit ''data'', result_json (sample_result sample_passages)),
                 (lit ''message'', JStr (lit ''Analysis complete''))])"
proof -
  have url: "\<not> falsy sample_url"
    by (simp add: falsy_def sample_url_def lit_def)
  have miss: "store_fault sample_env c = None" "cache empty_world k = None" for c k
    by (simp_all add: sample_env_def empty_world_def)
  show ?thesis
    unfolding post_api_analyze_def io_return_def io_throw_def io_bind_def io_catch_def
      req_json_def store_op_def cache_get_def Let_def
    using url miss
    by (simp add: invoke_def case_prod_unfold sample_runs)
qed

theorem cache_hit_returns_stored_result_witness:
  "fst (post_api_analyze sample_env (Inr (Some sample_url)) empty_world) =
     (200, JObj [(lit ''cached'', JBool False),
                 (lit ''data'', result_json (sample_result sample_passages)),
                 (lit ''message'', JStr (lit ''Analysis complete''))]) \<and>
   post_api_analyze quiet_env (Inr (Some sample_url))
     (snd (post_api_analyze sample_env (Inr (Some sample_url)) empty_world)) =
     ((200, JObj [(lit ''cached'', JBool True),
                  (lit ''data'', result_json (sample_result sample_passages)),
                  (lit ''message'', JStr (lit ''Retrieved from cache''))]),
      invoke (CacheGet (lit ''analysis:'' @ sample_url))
        (snd (post_api_analyze sample_env (Inr (Some sample_url)) empty_world)))"
proof -
  let ?r = "sample_result sample_passages"
  let ?b = "JObj [(lit ''cached'', JBool False), (lit ''data'', result_json ?r),
                  (lit ''message'', JStr (lit ''Analysis complete''))]"
  let ?w1 = "snd (post_api_analyze sample_env (Inr (Some sample_url)) empty_world)"
  have first: "post_api_analyze sample_env (Inr (Some sample_url)) empty_world = ((200, ?b), ?w1)"
    by (rule pair_fst_snd [OF sample_first_call])
  have f: "field ?b (lit ''cached'') = Some (JBool False)"
    "field ?b (lit ''data'') = Some (result_json ?r)"
    by (simp_all add: field_simps lit_def)
  have q: "store_fault quiet_env (CacheGet (lit ''analysis:'' @ sample_url)) = None"
    by (simp add: quiet_env_def)
  have "post_api_analyze quiet_env (Inr (Some sample_url)) ?w1 =
     ((200, JObj [(lit ''cached'', JBool True), (lit ''data'', result_json ?r),
                  (lit ''message'', JStr (lit ''Retrieved from cache''))]),
      invoke (CacheGet (lit ''analysis:'' @ sample_url)) ?w1)"
    using cache_hit_returns_stored_result [of ?r sample_env sample_url empty_world ?b ?w1
        "result_json ?r" quiet_env] first f q
    by blast
  then show ?thesis
    using sample_first_call by blast
qed

end
